theory Spec2Isabelle
  imports Main "HOL-Library.Sublist"
begin

section \<open>The Twitter content handler: data model\<close>

text \<open>
  The handler resolves a status URL into an HTML article. JavaScript strings are modelled
  as \<^typ>\<open>string\<close> (lists of code units), optional properties as \<^typ>\<open>'a option\<close>
  (\<open>None\<close> is \<^verbatim>\<open>undefined\<close> or \<^verbatim>\<open>null\<close>), arrays as lists.
\<close>

subsection \<open>String primitives of the JavaScript runtime\<close>

text \<open>\<^verbatim>\<open>s.split(c)\<close> for a one-character separator: never empty, \<^verbatim>\<open>''.split('/')\<close> is \<^verbatim>\<open>['']\<close>.\<close>

fun split_char :: "char \<Rightarrow> string \<Rightarrow> string list" where
  "split_char c [] = [[]]"
| "split_char c (x # xs) =
     (if x = c then [] # split_char c xs
      else (case split_char c xs of
              [] \<Rightarrow> [[x]]
            | w # ws \<Rightarrow> (x # w) # ws))"

text \<open>\<^verbatim>\<open>xs[0]\<close> on an array: \<^verbatim>\<open>undefined\<close> when the array is empty.\<close>

definition index0 :: "'a list \<Rightarrow> 'a option" where
  "index0 xs = (case xs of [] \<Rightarrow> None | x # _ \<Rightarrow> Some x)"

subsection \<open>The rendered document seen by the in-page scan\<close>

text \<open>
  An element as far as the scan reads it: its \<^verbatim>\<open>tagName\<close>, its \<^verbatim>\<open>innerHTML\<close> and the
  result of \<^verbatim>\<open>getAttribute('href')\<close> (\<open>None\<close> is \<^verbatim>\<open>null\<close>).
\<close>

record element =
  tagName :: string
  innerHTML :: string
  href :: "string option"

text \<open>
  A \<^verbatim>\<open>time\<close> node is given by its \<^verbatim>\<open>parentElement\<close> (\<open>None\<close> is \<^verbatim>\<open>null\<close>); a
  \<^verbatim>\<open>div[dir="auto"]\<close> node by its \<^verbatim>\<open>children[0]\<close> (\<open>None\<close> is \<^verbatim>\<open>undefined\<close>).
\<close>

type_synonym timeNode = "element option"
type_synonym autoDiv = "element option"

definition MAX_THREAD_DEPTH :: nat where
  "MAX_THREAD_DEPTH = 100"

text \<open>
  The \<^verbatim>\<open>for\<close> loop of the in-page function of \<^verbatim>\<open>getTweetIds\<close>: \<open>i\<close> is the loop
  counter, \<open>ids\<close> the array pushed to. Every \<^verbatim>\<open>continue\<close> is a recursive call with the
  array unchanged.
\<close>

function scanLoop :: "timeNode list \<Rightarrow> nat \<Rightarrow> string list \<Rightarrow> string list" where
  "scanLoop timeNodes i ids =
     (if i < length timeNodes \<and> i < MAX_THREAD_DEPTH then
        (case timeNodes ! i of
           None \<Rightarrow> scanLoop timeNodes (Suc i) ids
         | Some timeContainerAnchor \<Rightarrow>
             if tagName timeContainerAnchor = ''SPAN'' then scanLoop timeNodes (Suc i) ids
             else
               (case href timeContainerAnchor of
                  None \<Rightarrow> scanLoop timeNodes (Suc i) ids
                | Some h \<Rightarrow>
                    if h = [] then scanLoop timeNodes (Suc i) ids
                    else
                      (case index0 (rev (split_char CHR ''/'' h)) of
                         None \<Rightarrow> scanLoop timeNodes (Suc i) ids
                       | Some ident \<Rightarrow>
                           if ident = [] then scanLoop timeNodes (Suc i) ids
                           else scanLoop timeNodes (Suc i) (ids @ [ident]))))
      else ids)"
  by pat_completeness auto
termination
  by (relation "measure (\<lambda>(timeNodes, i, ids). length timeNodes - i)") auto

declare scanLoop.simps [simp del]

definition scanTimeNodes :: "timeNode list \<Rightarrow> string list" where
  "scanTimeNodes timeNodes = scanLoop timeNodes 0 []"

subsection \<open>Reading the scan: timestamps wrapped in a link\<close>

text \<open>
  The identifier a single timestamp contributes: the last \<open>/\<close>-separated segment of the
  \<^verbatim>\<open>href\<close> of its parent element, when the parent exists, is not a \<^verbatim>\<open>SPAN\<close>, carries a
  non-empty \<^verbatim>\<open>href\<close> and that segment is non-empty.
\<close>

definition trailingId :: "timeNode \<Rightarrow> string option" where
  "trailingId n =
     (case n of
        None \<Rightarrow> None
      | Some a \<Rightarrow>
          if tagName a = ''SPAN'' then None
          else (case href a of
                  None \<Rightarrow> None
                | Some h \<Rightarrow>
                    if h = [] then None
                    else if last (split_char CHR ''/'' h) = [] then None
                    else Some (last (split_char CHR ''/'' h))))"

definition wrappedInLink :: "timeNode \<Rightarrow> bool" where
  "wrappedInLink n = (trailingId n \<noteq> None)"

subsection \<open>Regular expressions of the JavaScript runtime\<close>

text \<open>
  The fragment of the regular-expression language that \<^verbatim>\<open>TWITTER_URL_MATCH\<close> is written
  in: literal characters, a greedy optional \<^verbatim>\<open>(?:r)?\<close>, greedy \<^verbatim>\<open>c+\<close> and \<^verbatim>\<open>c*\<close> over a
  character class, sequence, and a numbered capture group.
\<close>

datatype re =
    Lit string
  | Opt re
  | Plus "char \<Rightarrow> bool"
  | Star "char \<Rightarrow> bool"
  | Seq re re
  | Group nat re

text \<open>The classes \<^verbatim>\<open>\d\<close>, \<^verbatim>\<open>\w\<close> and \<^verbatim>\<open>.\<close> (no flags: ASCII only, \<^verbatim>\<open>.\<close> excludes line ends).\<close>

definition is_digit :: "char \<Rightarrow> bool" where
  "is_digit c = (48 \<le> (of_char c :: nat) \<and> (of_char c :: nat) \<le> 57)"

definition is_word :: "char \<Rightarrow> bool" where
  "is_word c =
     (is_digit c
      \<or> (65 \<le> (of_char c :: nat) \<and> (of_char c :: nat) \<le> 90)
      \<or> (97 \<le> (of_char c :: nat) \<and> (of_char c :: nat) \<le> 122)
      \<or> c = CHR ''_'')"

definition is_dot :: "char \<Rightarrow> bool" where
  "is_dot c = (c \<noteq> CHR 0x0A \<and> c \<noteq> CHR 0x0D)"

text \<open>
  The backtracking matcher: a match state is the captures so far and the input left.
  \<open>ms r st\<close> lists the states in which a match of \<open>r\<close> started in \<open>st\<close> can end, in
  the order in which the engine tries them (a greedy quantifier tries the longest
  repetition first, a greedy optional tries the presence first). The engine commits to
  the first end state of the whole pattern.
\<close>

type_synonym captures = "nat \<Rightarrow> string option"

fun ms :: "re \<Rightarrow> captures \<times> string \<Rightarrow> (captures \<times> string) list" where
  "ms (Lit l) (c, s) = (if prefix l s then [(c, drop (length l) s)] else [])"
| "ms (Opt r) (c, s) = ms r (c, s) @ [(c, s)]"
| "ms (Plus p) (c, s) =
     map (\<lambda>k. (c, drop k s)) (rev [1 ..< Suc (length (takeWhile p s))])"
| "ms (Star p) (c, s) =
     map (\<lambda>k. (c, drop k s)) (rev [0 ..< Suc (length (takeWhile p s))])"
| "ms (Seq r1 r2) (c, s) = concat (map (ms r2) (ms r1 (c, s)))"
| "ms (Group n r) (c, s) =
     map (\<lambda>(c', s'). (c'(n := Some (take (length s - length s') s)), s')) (ms r (c, s))"

text \<open>A pattern written as the sequence of its parts.\<close>

fun seq :: "re list \<Rightarrow> re" where
  "seq [] = Lit []"
| "seq (r # rs) = Seq r (seq rs)"

text \<open>The captures of the end state the engine commits to, for a match started in \<open>st\<close>.\<close>

definition first_caps :: "re \<Rightarrow> captures \<times> string \<Rightarrow> captures option" where
  "first_caps r st = (case ms r st of [] \<Rightarrow> None | (c, _) # _ \<Rightarrow> Some c)"

text \<open>
  \<^verbatim>\<open>str.match(re)\<close> for a pattern without the \<^verbatim>\<open>g\<close> flag: the match is tried at every
  start index from 0 up to the length of the string, and the first index at which it
  succeeds gives the result; \<open>None\<close> is \<^verbatim>\<open>null\<close>.
\<close>

fun js_match :: "re \<Rightarrow> string \<Rightarrow> captures option" where
  "js_match r [] = first_caps r (\<lambda>_. None, [])"
| "js_match r (x # xs) =
     (case first_caps r (\<lambda>_. None, x # xs) of
        None \<Rightarrow> js_match r xs
      | Some c \<Rightarrow> Some c)"

subsection \<open>The identifier extractor\<close>

text \<open>\<^verbatim>\<open>/twitter\.com\/(?:#!\/)?(\w+)\/status(?:es)?\/(\d+)(?:\/.*)?/\<close>\<close>

definition TWITTER_URL_MATCH :: re where
  "TWITTER_URL_MATCH =
     seq [Lit ''twitter.com/'', Opt (Lit ''#!/''), Group 1 (Plus is_word), Lit ''/status'',
          Opt (Lit ''es''), Lit ''/'', Group 2 (Plus is_digit),
          Opt (Seq (Lit ''/'') (Star is_dot))]"

text \<open>\<^verbatim>\<open>match?.[2]\<close>: \<open>None\<close> is \<^verbatim>\<open>undefined\<close>.\<close>

definition tweetIdFromStatusUrl :: "string \<Rightarrow> string option" where
  "tweetIdFromStatusUrl url =
     (case js_match TWITTER_URL_MATCH url of None \<Rightarrow> None | Some c \<Rightarrow> c 2)"

subsection \<open>Reading the pattern: what a status URL is\<close>

text \<open>
  \<open>statusUrlAt s ds\<close>: the string \<open>s\<close> begins with an occurrence of the recognised shape
  whose digit sequence after \<^verbatim>\<open>status/\<close> or \<^verbatim>\<open>statuses/\<close> is \<open>ds\<close>, all of it (the next
  character, if any, is not a digit).
\<close>

definition statusUrlAt :: "string \<Rightarrow> string \<Rightarrow> bool" where
  "statusUrlAt s ds =
     (\<exists>hb user es rest.
        s = ''twitter.com/'' @ hb @ user @ ''/status'' @ es @ ''/'' @ ds @ rest
        \<and> (hb = [] \<or> hb = ''#!/'')
        \<and> user \<noteq> [] \<and> list_all is_word user
        \<and> (es = [] \<or> es = ''es'')
        \<and> ds \<noteq> [] \<and> list_all is_digit ds
        \<and> (case rest of [] \<Rightarrow> True | r # _ \<Rightarrow> \<not> is_digit r))"

definition matchesStatusPattern :: "string \<Rightarrow> bool" where
  "matchesStatusPattern url = (\<exists>pre s ds. url = pre @ s \<and> statusUrlAt s ds)"

subsection \<open>API responses\<close>

text \<open>
  The interfaces \<^verbatim>\<open>TweetIncludes\<close>, \<^verbatim>\<open>TweetMeta\<close>, \<^verbatim>\<open>TweetData\<close>, \<^verbatim>\<open>Tweet\<close> and
  \<^verbatim>\<open>Tweets\<close>. A field whose source name is a HOL constant or is used by two interfaces
  carries a prefix (\<^verbatim>\<open>id\<close>, \<^verbatim>\<open>type\<close>, \<^verbatim>\<open>url\<close>, \<^verbatim>\<open>text\<close>, \<^verbatim>\<open>data\<close>, \<^verbatim>\<open>includes\<close>).
  \<open>entities\<close> is \<open>None\<close> when \<^verbatim>\<open>entities\<close> or \<^verbatim>\<open>entities.urls\<close> is missing, \<open>attachments\<close>
  is \<open>None\<close> when \<^verbatim>\<open>attachments\<close> or \<^verbatim>\<open>attachments.media_keys\<close> is missing: the code guards
  both reads.
\<close>

record user =
  user_id :: string
  name :: string
  profile_image_url :: string
  username :: string

record media =
  preview_image_url :: string
  media_type :: string
  media_url :: string
  media_key :: string

record urlEntity =
  entity_url :: string
  expanded_url :: string
  display_url :: string

record TweetIncludes =
  users :: "user list"
  media :: "media list option"

record TweetData =
  author_id :: string
  tweet_text :: string
  entities :: "urlEntity list option"
  created_at :: string
  referenced_tweets :: "(string \<times> string) list"
  conversation_id :: string
  attachments :: "string list option"

record Tweet =
  tweet_data :: TweetData
  tweet_includes :: TweetIncludes

record Tweets =
  tweets_data :: "TweetData list"
  tweets_includes :: TweetIncludes
  result_count :: int

record PreHandleResult =
  content :: string
  result_url :: string
  title :: string

subsection \<open>Exceptions, effects, and the world the handler runs in\<close>

text \<open>
  The two errors the code throws itself, the \<^verbatim>\<open>TypeError\<close> of reading a property of
  \<^verbatim>\<open>undefined\<close>, and the rejection of an awaited call of a library (axios, puppeteer).
\<close>

datatype error =
    NoBearerToken
  | NoTweetId
  | TypeError
  | Rejected string

text \<open>The calls the handler makes to the outside, in the order it makes them.\<close>

datatype event =
    HttpGetTweet string
  | HttpGetTweets "string list"
  | HttpSearchRecent string
  | Launch
  | NewPage
  | Goto string
  | WaitFor nat
  | Evaluate
  | ConsoleLog error
  | BrowserClose

text \<open>
  Everything the handler reads from outside: the environment variable, the answer of the
  API to each request (keyed by the identifier the request URL is built from), the clock,
  the date parser (\<open>None\<close> is \<^verbatim>\<open>NaN\<close>), luxon's formatter, and the outcome of each
  puppeteer call (\<open>None\<close>: the promise resolves; \<open>Some e\<close>: it rejects with \<open>e\<close>). The
  rendered page is given by the \<^verbatim>\<open>div[dir="auto"]\<close> nodes and by the \<^verbatim>\<open>time\<close> nodes found
  after the wait, depending on whether the button was clicked. Calls are assumed to
  return.
\<close>

record world =
  TWITTER_BEARER_TOKEN :: "string option"
  http_tweet :: "string \<Rightarrow> error + Tweet"
  http_tweets :: "string list \<Rightarrow> error + Tweets"
  http_search :: "string \<Rightarrow> error + Tweets"
  now :: int
  date_getTime :: "string \<Rightarrow> int option"
  luxon_format :: "string \<Rightarrow> string"
  launch_result :: "error option"
  newPage_result :: "error option"
  goto_result :: "string \<Rightarrow> error option"
  evaluate_result :: "error option"
  auto_divs :: "autoDiv list"
  time_nodes :: "bool \<Rightarrow> timeNode list"
  close_result :: "error option"

text \<open>
  An asynchronous computation, run to its end: the value it resolves to or the exception
  it rejects with, and the outside calls it made.
\<close>

type_synonym 'a io = "(error + 'a) \<times> event list"

definition ret :: "'a \<Rightarrow> 'a io" where
  "ret x = (Inr x, [])"

definition throw :: "error \<Rightarrow> 'a io" where
  "throw e = (Inl e, [])"

definition bind :: "'a io \<Rightarrow> ('a \<Rightarrow> 'b io) \<Rightarrow> 'b io" where
  "bind m f =
     (case m of
        (Inl e, t) \<Rightarrow> (Inl e, t)
      | (Inr x, t) \<Rightarrow> (case f x of (r, t') \<Rightarrow> (r, t @ t')))"

text \<open>An awaited outside call: it is recorded, and resolves or rejects as the world says.\<close>

definition await_call :: "event \<Rightarrow> error option \<Rightarrow> unit io" where
  "await_call ev outcome = (case outcome of None \<Rightarrow> (Inr (), [ev]) | Some e \<Rightarrow> (Inl e, [ev]))"

definition await_get :: "event \<Rightarrow> error + 'a \<Rightarrow> 'a io" where
  "await_get ev response = (response, [ev])"

text \<open>
  \<^verbatim>\<open>try { b } catch (e) { h } finally { f }\<close>: the handler runs when the body throws, the
  finaliser runs in every case, and an exception of the finaliser replaces the outcome.
\<close>

definition try_catch_finally :: "'a io \<Rightarrow> (error \<Rightarrow> 'a io) \<Rightarrow> unit io \<Rightarrow> 'a io" where
  "try_catch_finally b h f =
     (case b of (r1, t1) \<Rightarrow>
        (case (case r1 of Inl e \<Rightarrow> h e | Inr x \<Rightarrow> (Inr x, [])) of (r2, t2) \<Rightarrow>
           (case f of
              (Inl e, t3) \<Rightarrow> (Inl e, t1 @ t2 @ t3)
            | (Inr _, t3) \<Rightarrow> (r2, t1 @ t2 @ t3))))"

subsection \<open>Post fetchers\<close>

text \<open>\<^verbatim>\<open>!TWITTER_BEARER_TOKEN\<close>: the variable is unset or empty.\<close>

definition no_token :: "world \<Rightarrow> bool" where
  "no_token w = (case TWITTER_BEARER_TOKEN w of None \<Rightarrow> True | Some t \<Rightarrow> t = [])"

definition getTweetThread :: "world \<Rightarrow> string \<Rightarrow> Tweets io" where
  "getTweetThread w conversationId =
     (if no_token w then throw NoBearerToken
      else await_get (HttpSearchRecent conversationId) (http_search w conversationId))"

definition getTweetById :: "world \<Rightarrow> string \<Rightarrow> Tweet io" where
  "getTweetById w ident =
     (if no_token w then throw NoBearerToken
      else await_get (HttpGetTweet ident) (http_tweet w ident))"

definition getTweetsByIds :: "world \<Rightarrow> string list \<Rightarrow> Tweets io" where
  "getTweetsByIds w ids =
     (if no_token w then throw NoBearerToken
      else await_get (HttpGetTweets ids) (http_tweets w ids))"

definition titleForAuthor :: "user \<Rightarrow> string" where
  "titleForAuthor author = name author @ '' on Twitter''"

definition getTweetsFromResponse :: "Tweets \<Rightarrow> Tweet list" where
  "getTweetsFromResponse response =
     map (\<lambda>t.
        \<lparr>tweet_data = t,
         tweet_includes =
           \<lparr>users = users (tweets_includes response),
            media =
              map_option
                (filter (\<lambda>m. case attachments t of
                               None \<Rightarrow> False
                             | Some media_keys \<Rightarrow> media_key m \<in> set media_keys))
                (media (tweets_includes response))\<rparr>\<rparr>)
       (tweets_data response)"

subsection \<open>The browser-automation fallback\<close>

text \<open>The in-page function: the button search, the click, and the scan of the timestamps.\<close>

definition showRepliesButton :: "world \<Rightarrow> autoDiv option" where
  "showRepliesButton w =
     find (\<lambda>node. case node of None \<Rightarrow> False | Some child \<Rightarrow> innerHTML child = ''Show replies'')
       (filter (\<lambda>node. case node of None \<Rightarrow> False | Some child \<Rightarrow> tagName child = ''SPAN'')
          (auto_divs w))"

definition inPage :: "world \<Rightarrow> string list" where
  "inPage w = scanTimeNodes (time_nodes w (showRepliesButton w \<noteq> None))"

definition scanPage :: "world \<Rightarrow> string \<Rightarrow> string list io" where
  "scanPage w pageURL =
     bind (await_call NewPage (newPage_result w)) (\<lambda>_.
     bind (await_call (Goto pageURL) (goto_result w pageURL)) (\<lambda>_.
     bind (await_call (WaitFor 4000) None) (\<lambda>_.
     bind (await_call Evaluate (evaluate_result w)) (\<lambda>_.
     ret (inPage w)))))"

definition getTweetIds :: "world \<Rightarrow> string \<Rightarrow> string list io" where
  "getTweetIds w tweetId =
     (let pageURL = ''https://twitter.com/anyone/status/'' @ tweetId in
      bind (await_call Launch (launch_result w)) (\<lambda>_.
        try_catch_finally
          (scanPage w pageURL)
          (\<lambda>e. bind (await_call (ConsoleLog e) None) (\<lambda>_. ret []))
          (await_call BrowserClose (close_result w))))"

definition getOldTweets :: "world \<Rightarrow> string \<Rightarrow> Tweet list io" where
  "getOldTweets w conversationId =
     bind (getTweetIds w conversationId) (\<lambda>tweetIds.
     bind (getTweetsByIds w tweetIds) (\<lambda>response.
     ret (getTweetsFromResponse response)))"

definition getRecentTweets :: "world \<Rightarrow> string \<Rightarrow> Tweet list io" where
  "getRecentTweets w conversationId =
     bind (getTweetThread w conversationId) (\<lambda>thread.
     if result_count thread = 0 then ret []
     else ret (rev (getTweetsFromResponse thread)))"

subsection \<open>String functions of the runtime and of underscore\<close>

text \<open>
  \<^verbatim>\<open>subject.replace(pattern, replacement)\<close> with a string pattern: only the first occurrence
  of the pattern is replaced, and the replacement is a template in which \<^verbatim>\<open>$$\<close> stands for
  a dollar sign, \<^verbatim>\<open>$&\<close> for the matched text, \<^verbatim>\<open>$`\<close> for the text before the match and
  \<^verbatim>\<open>$'\<close> for the text after it. A string pattern has no capture groups, so \<^verbatim>\<open>$1\<close> and the
  like stay as they are.
\<close>

fun js_indexOf :: "string \<Rightarrow> string \<Rightarrow> nat option" where
  "js_indexOf pat [] = (if pat = [] then Some 0 else None)"
| "js_indexOf pat (x # xs) =
     (if prefix pat (x # xs) then Some 0 else map_option Suc (js_indexOf pat xs))"

fun getSubstitution :: "string \<Rightarrow> string \<Rightarrow> string \<Rightarrow> string \<Rightarrow> string" where
  "getSubstitution matched preceding following [] = []"
| "getSubstitution matched preceding following [c] = [c]"
| "getSubstitution matched preceding following (c # d # r) =
     (if c = CHR ''$'' then
        (if d = CHR ''$'' then CHR ''$'' # getSubstitution matched preceding following r
         else if d = CHR ''&'' then matched @ getSubstitution matched preceding following r
         else if d = CHR 0x60 then preceding @ getSubstitution matched preceding following r
         else if d = CHR 0x27 then following @ getSubstitution matched preceding following r
         else c # getSubstitution matched preceding following (d # r))
      else c # getSubstitution matched preceding following (d # r))"

definition js_replace :: "string \<Rightarrow> string \<Rightarrow> string \<Rightarrow> string" where
  "js_replace subject pat replacement =
     (case js_indexOf pat subject of
        None \<Rightarrow> subject
      | Some i \<Rightarrow>
          take i subject
          @ getSubstitution pat (take i subject) (drop (i + length pat) subject) replacement
          @ drop (i + length pat) subject)"

text \<open>\<^verbatim>\<open>xs.join(sep)\<close>\<close>

fun js_join :: "string \<Rightarrow> string list \<Rightarrow> string" where
  "js_join sep [] = []"
| "js_join sep [x] = x"
| "js_join sep (x # y # r) = x @ sep @ js_join sep (y # r)"

text \<open>
  \<^verbatim>\<open>_.escape\<close> of underscore, a dependency of the handler, as the library documents it: each
  of the six characters \<^verbatim>\<open>& < > " ' `\<close> is replaced by its entity, every other character
  is kept.
\<close>

definition escapeChar :: "char \<Rightarrow> string" where
  "escapeChar c =
     (if c = CHR ''&'' then ''&amp;''
      else if c = CHR ''<'' then ''&lt;''
      else if c = CHR ''>'' then ''&gt;''
      else if c = CHR 0x22 then ''&quot;''
      else if c = CHR 0x27 then ''&#x27;''
      else if c = CHR 0x60 then ''&#x60;''
      else [c])"

definition underscore_escape :: "string \<Rightarrow> string" where
  "underscore_escape s = concat (map escapeChar s)"

subsection \<open>Rendering\<close>

text \<open>Lines 324 to 332 of \<^verbatim>\<open>preHandle\<close>: the text of one post with its links substituted.\<close>

definition anchorFor :: "urlEntity \<Rightarrow> string" where
  \<open>anchorFor urlObj = ''<a href="'' @ expanded_url urlObj @ ''">'' @ display_url urlObj @ ''</a>''\<close>

definition substituteUrls :: "TweetData \<Rightarrow> string" where
  "substituteUrls tweetData =
     (case entities tweetData of
        None \<Rightarrow> tweet_text tweetData
      | Some urls \<Rightarrow>
          fold (\<lambda>urlObj text. js_replace text (entity_url urlObj) (anchorFor urlObj))
            urls (tweet_text tweetData))"

text \<open>Lines 334 to 345: the media of one post; \<open>pageUrl\<close> is the URL given to \<^verbatim>\<open>preHandle\<close>.\<close>

definition mediaHtml :: "string \<Rightarrow> media \<Rightarrow> string" where
  \<open>mediaHtml pageUrl m =
     (let linkUrl = (if media_type m = ''photo'' then media_url m else pageUrl);
          previewUrl = (if media_type m = ''photo'' then media_url m else preview_image_url m)
      in ''<a class="media-link" href=''
         @ linkUrl
         @ ''>\<newline>          <picture>\<newline>            <img class="tweet-img" src=''
         @ previewUrl
         @ '' />\<newline>          </picture>\<newline>          </a>'')\<close>

definition includesHtml :: "string \<Rightarrow> Tweet \<Rightarrow> string" where
  "includesHtml pageUrl tweet =
     (case media (tweet_includes tweet) of
        None \<Rightarrow> []
      | Some included \<Rightarrow> js_join ''\<newline>'' (map (mediaHtml pageUrl) included))"

text \<open>Lines 347 to 350: what one post adds to \<^verbatim>\<open>tweetsContent\<close>.\<close>

definition tweetHtml :: "string \<Rightarrow> Tweet \<Rightarrow> string" where
  "tweetHtml pageUrl tweet =
     ''\<newline>      <p>''
     @ substituteUrls (tweet_data tweet)
     @ ''</p>\<newline>      ''
     @ includesHtml pageUrl tweet
     @ ''\<newline>    ''"

text \<open>Lines 321 to 351: the loop over the thread.\<close>

definition tweetsContent :: "string \<Rightarrow> Tweet list \<Rightarrow> string" where
  "tweetsContent pageUrl tweets = foldl (\<lambda>acc tweet. acc @ tweetHtml pageUrl tweet) [] tweets"

text \<open>Lines 353 to 359: the attribution line. The dash is given by its UTF-8 bytes.\<close>

definition tweetUrl :: "world \<Rightarrow> string \<Rightarrow> user \<Rightarrow> TweetData \<Rightarrow> string" where
  \<open>tweetUrl w pageUrl author tweetData =
     ''\<newline>       '' @ [CHR 0xE2, CHR 0x80, CHR 0x94] @ '' <a href="https://twitter.com/''
     @ username author
     @ ''">''
     @ username author
     @ ''</a> ''
     @ name author
     @ '' <a href="''
     @ pageUrl
     @ ''">''
     @ luxon_format w (created_at tweetData)
     @ ''</a>\<newline>    ''\<close>

text \<open>Lines 361 to 373: the document.\<close>

definition renderContent :: "string \<Rightarrow> string \<Rightarrow> string \<Rightarrow> string \<Rightarrow> string \<Rightarrow> string" where
  \<open>renderContent authorImage ogTitle description threadHtml attribution =
     ''\<newline>    <head>\<newline>      <meta property="og:image" content="''
     @ authorImage
     @ ''" />\<newline>      <meta property="og:image:secure_url" content="''
     @ authorImage
     @ ''" />\<newline>      <meta property="og:title" content="''
     @ ogTitle
     @ ''" />\<newline>      <meta property="og:description" content="''
     @ description
     @ ''" />\<newline>    </head>\<newline>    <body>\<newline>      <div>\<newline>        ''
     @ threadHtml
     @ ''\<newline>        ''
     @ attribution
     @ ''\<newline>      </div>\<newline>    </body>''\<close>

subsection \<open>The handler\<close>

text \<open>
  Lines 291 to 300: the identifier from the URL, the first fetch, and the second fetch
  when the post is a reply. The result is \<^verbatim>\<open>tweet\<close> and \<^verbatim>\<open>conversationId\<close>.
\<close>

definition resolveRoot :: "world \<Rightarrow> string \<Rightarrow> (Tweet \<times> string) io" where
  "resolveRoot w pageUrl =
     (case tweetIdFromStatusUrl pageUrl of
        None \<Rightarrow> throw NoTweetId
      | Some tweetId \<Rightarrow>
          if tweetId = [] then throw NoTweetId
          else
            bind (getTweetById w tweetId) (\<lambda>tweet.
              let conversationId = conversation_id (tweet_data tweet) in
              if conversationId \<noteq> tweetId then
                bind (getTweetById w conversationId) (\<lambda>tweet'. ret (tweet', conversationId))
              else ret (tweet, conversationId)))"

text \<open>
  Line 304: \<^verbatim>\<open>tweet.includes.users.filter((u) => (u.id = authorId))[0]\<close>. The callback
  assigns, so it writes \<open>authorId\<close> into every user it visits and returns \<open>authorId\<close>,
  which is truthy unless it is the empty string. \<open>filterAssign\<close> returns the array as the
  loop leaves it and the array \<^verbatim>\<open>filter\<close> returns.
\<close>

fun filterAssign :: "string \<Rightarrow> user list \<Rightarrow> user list \<times> user list" where
  "filterAssign authorId [] = ([], [])"
| "filterAssign authorId (u # us) =
     (let u' = u\<lparr>user_id := authorId\<rparr> in
      case filterAssign authorId us of
        (us', kept) \<Rightarrow> (u' # us', if authorId \<noteq> [] then u' # kept else kept))"

definition lookupAuthor :: "Tweet \<Rightarrow> Tweet \<times> user option" where
  "lookupAuthor tweet =
     (case filterAssign (author_id (tweet_data tweet)) (users (tweet_includes tweet)) of
        (users', kept) \<Rightarrow>
          (tweet\<lparr>tweet_includes := (tweet_includes tweet)\<lparr>users := users'\<rparr>\<rparr>, index0 kept))"

text \<open>
  Lines 311 to 314: \<^verbatim>\<open>new Date(created_at).getTime() < Date.now() - 7 * 24 * 60 * 60 * 1000\<close>;
  a comparison with \<^verbatim>\<open>NaN\<close> is false.
\<close>

definition olderThan7Days :: "world \<Rightarrow> Tweet \<Rightarrow> bool" where
  "olderThan7Days w tweet =
     (case date_getTime w (created_at (tweet_data tweet)) of
        None \<Rightarrow> False
      | Some t \<Rightarrow> t < now w - 7 * 24 * 60 * 60 * 1000)"

text \<open>Lines 310 to 319: the thread.\<close>

definition resolveTweets :: "world \<Rightarrow> Tweet \<Rightarrow> string \<Rightarrow> Tweet list io" where
  "resolveTweets w tweet conversationId =
     (if olderThan7Days w tweet then getOldTweets w conversationId
      else bind (getRecentTweets w conversationId) (\<lambda>recent. ret (tweet # recent)))"

text \<open>
  \<^verbatim>\<open>preHandle\<close>. Reading \<^verbatim>\<open>author.name\<close> when the lookup found nobody is a \<^verbatim>\<open>TypeError\<close>,
  thrown before the thread is fetched.
\<close>

definition preHandle :: "world \<Rightarrow> string \<Rightarrow> PreHandleResult io" where
  "preHandle w pageUrl =
     bind (resolveRoot w pageUrl) (\<lambda>(fetched, conversationId).
       case lookupAuthor fetched of
         (tweet, None) \<Rightarrow> throw TypeError
       | (tweet, Some author) \<Rightarrow>
           (let tweetData = tweet_data tweet;
                ogTitle = underscore_escape (titleForAuthor author);
                authorImage = js_replace (profile_image_url author) ''_normal'' ''_400x400'';
                description = underscore_escape (tweet_text tweetData)
            in bind (resolveTweets w tweet conversationId) (\<lambda>tweets.
                 ret \<lparr>content =
                        renderContent authorImage ogTitle description
                          (tweetsContent pageUrl tweets)
                          (tweetUrl w pageUrl author tweetData),
                      result_url = pageUrl,
                      title = ogTitle\<rparr>)))"

subsection \<open>Example data\<close>

text \<open>
  A small world used to run the handler on concrete inputs: the link points at the reply
  \<open>21\<close> of the conversation \<open>20\<close>; the root post was created exactly seven days before
  the clock's time; the search answers with three replies, newest first.
\<close>

definition alice :: user where
  "alice = \<lparr>user_id = ''7'', name = ''Alice <3'', profile_image_url = ''https://img/a_normal.png'',
            username = ''alice''\<rparr>"

definition bob :: user where
  "bob = \<lparr>user_id = ''8'', name = ''Bob'', profile_image_url = ''https://img/b_normal.png'',
          username = ''bob''\<rparr>"

definition examplePost :: "string \<Rightarrow> string \<Rightarrow> TweetData" where
  "examplePost body authorId =
     \<lparr>author_id = authorId, tweet_text = body, entities = None, created_at = ''2022-01-10'',
      referenced_tweets = [], conversation_id = ''20'', attachments = None\<rparr>"

definition exampleTweet :: "string \<Rightarrow> string \<Rightarrow> Tweet" where
  "exampleTweet body authorId =
     \<lparr>tweet_data = examplePost body authorId,
      tweet_includes = \<lparr>users = [alice, bob], media = None\<rparr>\<rparr>"

definition exampleSearch :: Tweets where
  "exampleSearch =
     \<lparr>tweets_data = [examplePost ''third'' ''7'', examplePost ''second'' ''8'',
                      examplePost ''first'' ''7''],
      tweets_includes = \<lparr>users = [alice, bob], media = None\<rparr>,
      result_count = 3\<rparr>"

definition exampleWorld :: world where
  "exampleWorld =
     \<lparr>TWITTER_BEARER_TOKEN = Some ''token'',
      http_tweet = (\<lambda>i. if i = ''20'' then Inr (exampleTweet ''<b>root</b>'' ''7'')
                        else if i = ''21'' then Inr (exampleTweet ''reply'' ''8'')
                        else Inl (Rejected ''404'')),
      http_tweets = (\<lambda>ids. Inr (exampleSearch\<lparr>result_count := 0\<rparr>)),
      http_search = (\<lambda>c. Inr exampleSearch),
      now = 1642377600000,
      date_getTime = (\<lambda>s. if s = ''2022-01-10'' then Some 1641772800000 else None),
      luxon_format = (\<lambda>s. s),
      launch_result = None,
      newPage_result = None,
      goto_result = (\<lambda>u. None),
      evaluate_result = None,
      auto_divs = [],
      time_nodes = (\<lambda>clicked.
        [Some \<lparr>tagName = ''A'', innerHTML = '''', href = Some ''/alice/status/20''\<rparr>,
         Some \<lparr>tagName = ''A'', innerHTML = '''', href = Some ''/bob/status/22''\<rparr>]),
      close_result = None\<rparr>"

definition exampleUrl :: string where
  "exampleUrl = ''https://twitter.com/bob/status/21''"

text \<open>A link entity whose expanded URL has a query string containing \<^verbatim>\<open>$&\<close>.\<close>

definition dollarEntity :: urlEntity where
  "dollarEntity =
     \<lparr>entity_url = ''https://t.co/a1'',
      expanded_url = ''https://example.com/?q=$&lang=en'',
      display_url = ''example.com/?q=$&lang=en''\<rparr>"

section \<open>Properties of the scan\<close>

lemma split_char_nonempty: "split_char c s \<noteq> []"
  by (induction s) (auto split: list.splits)

lemma index0_rev: "xs \<noteq> [] \<Longrightarrow> index0 (rev xs) = Some (last xs)"
  by (cases xs rule: rev_cases) (simp_all add: index0_def)

lemma scanLoop_done:
  assumes "\<not> (i < length timeNodes \<and> i < MAX_THREAD_DEPTH)"
  shows "scanLoop timeNodes i ids = ids"
  by (subst scanLoop.simps) (simp only: assms if_False)

lemma scanLoop_step:
  assumes "i < length timeNodes" "i < MAX_THREAD_DEPTH"
  shows "scanLoop timeNodes i ids =
           scanLoop timeNodes (Suc i)
             (ids @ (case trailingId (timeNodes ! i) of None \<Rightarrow> [] | Some x \<Rightarrow> [x]))"
proof -
  have r: "\<And>h. index0 (rev (split_char CHR ''/'' h)) = Some (last (split_char CHR ''/'' h))"
    by (simp add: index0_rev split_char_nonempty)
  show ?thesis
    using assms
    by (subst scanLoop.simps) (simp add: trailingId_def r split: option.splits)
qed

lemma scanLoop_map_filter:
  "scanLoop timeNodes i ids =
     ids @ List.map_filter trailingId (drop i (take MAX_THREAD_DEPTH timeNodes))"
proof (induction "length timeNodes - i" arbitrary: i ids)
  case 0
  then have "drop i (take MAX_THREAD_DEPTH timeNodes) = []"
    by simp
  moreover have "scanLoop timeNodes i ids = ids"
    using 0 by (intro scanLoop_done) simp
  ultimately show ?case
    by (simp add: List.map_filter_simps)
next
  case (Suc k)
  then have il: "i < length timeNodes"
    by simp
  show ?case
  proof (cases "i < MAX_THREAD_DEPTH")
    case False
    then have "drop i (take MAX_THREAD_DEPTH timeNodes) = []"
      by simp
    moreover have "scanLoop timeNodes i ids = ids"
      using False by (intro scanLoop_done) simp
    ultimately show ?thesis
      by (simp add: List.map_filter_simps)
  next
    case True
    have d: "drop i (take MAX_THREAD_DEPTH timeNodes) =
               timeNodes ! i # drop (Suc i) (take MAX_THREAD_DEPTH timeNodes)"
      using il True by (subst Cons_nth_drop_Suc [symmetric]) simp_all
    have k: "k = length timeNodes - Suc i"
      using Suc.hyps(2) by simp
    show ?thesis
      unfolding scanLoop_step [OF il True] Suc.hyps(1) [OF k] d
      by (simp add: List.map_filter_simps split: option.splits)
  qed
qed

lemma scanTimeNodes_map_filter:
  "scanTimeNodes timeNodes = List.map_filter trailingId (take MAX_THREAD_DEPTH timeNodes)"
  by (simp add: scanTimeNodes_def scanLoop_map_filter)

lemma map_filter_eq_map_the:
  "List.map_filter f xs = map (the \<circ> f) (filter (\<lambda>x. f x \<noteq> None) xs)"
  by (induction xs) (auto simp: List.map_filter_simps split: option.splits)

lemma map_filter_replicate:
  "List.map_filter f (replicate n x) = (case f x of None \<Rightarrow> [] | Some y \<Rightarrow> replicate n y)"
  by (induction n) (auto simp: List.map_filter_simps split: option.splits)

text \<open>
  Claim C7, as amended. The scan returns, in document order, the trailing identifier of
  every timestamp among the first 100 timestamp elements whose parent is an element other
  than a \<^verbatim>\<open>SPAN\<close> carrying a non-empty \<^verbatim>\<open>href\<close> with a non-empty last path segment.
  The list therefore never has more than 100 entries, and it has exactly as many entries
  as there are such timestamps in the whole document when the document has at most 100
  timestamp elements. The cap bounds the timestamps looked at, not the identifiers found.
\<close>

theorem scan_counts_links_among_first_100:
  "scanTimeNodes timeNodes =
     map (the \<circ> trailingId) (filter wrappedInLink (take MAX_THREAD_DEPTH timeNodes))
   \<and> length (scanTimeNodes timeNodes) =
       length (filter wrappedInLink (take MAX_THREAD_DEPTH timeNodes))
   \<and> length (scanTimeNodes timeNodes) \<le> 100
   \<and> (length timeNodes \<le> 100 \<longrightarrow>
        length (scanTimeNodes timeNodes) = length (filter wrappedInLink timeNodes))"
proof -
  have e: "scanTimeNodes timeNodes =
     map (the \<circ> trailingId) (filter wrappedInLink (take MAX_THREAD_DEPTH timeNodes))"
    unfolding scanTimeNodes_map_filter map_filter_eq_map_the wrappedInLink_def ..
  have "length (filter wrappedInLink (take MAX_THREAD_DEPTH timeNodes))
          \<le> length (take MAX_THREAD_DEPTH timeNodes)"
    by (rule length_filter_le)
  then have l: "length (filter wrappedInLink (take MAX_THREAD_DEPTH timeNodes)) \<le> 100"
    by (simp add: MAX_THREAD_DEPTH_def)
  show ?thesis
    using l by (simp add: e) (simp add: MAX_THREAD_DEPTH_def)
qed

text \<open>
  Four timestamps (one without parent, two inside links, one inside a \<^verbatim>\<open>SPAN\<close>): two
  identifiers.
\<close>

theorem scan_counts_links_witness:
  "length [None, Some \<lparr>tagName = ''A'', innerHTML = '''', href = Some ''/u/status/12''\<rparr>,
                  Some \<lparr>tagName = ''SPAN'', innerHTML = '''', href = None\<rparr>,
                  Some \<lparr>tagName = ''A'', innerHTML = '''', href = Some ''/u/status/34''\<rparr>]
     \<le> (100::nat)
   \<and> scanTimeNodes [None, Some \<lparr>tagName = ''A'', innerHTML = '''', href = Some ''/u/status/12''\<rparr>,
                  Some \<lparr>tagName = ''SPAN'', innerHTML = '''', href = None\<rparr>,
                  Some \<lparr>tagName = ''A'', innerHTML = '''', href = Some ''/u/status/34''\<rparr>]
     = [''12'', ''34'']
   \<and> length (filter wrappedInLink
        [None, Some \<lparr>tagName = ''A'', innerHTML = '''', href = Some ''/u/status/12''\<rparr>,
                  Some \<lparr>tagName = ''SPAN'', innerHTML = '''', href = None\<rparr>,
                  Some \<lparr>tagName = ''A'', innerHTML = '''', href = Some ''/u/status/34''\<rparr>]) = 2"
  using scan_counts_links_among_first_100
    [of "[None, Some \<lparr>tagName = ''A'', innerHTML = '''', href = Some ''/u/status/12''\<rparr>,
                  Some \<lparr>tagName = ''SPAN'', innerHTML = '''', href = None\<rparr>,
                  Some \<lparr>tagName = ''A'', innerHTML = '''', href = Some ''/u/status/34''\<rparr>]"]
  by (simp add: MAX_THREAD_DEPTH_def wrappedInLink_def trailingId_def)

text \<open>
  Claim C7 as stated fails: a document of \<open>N = 101\<close> timestamps, the first without a
  parent and the other \<open>M = 100\<close> each wrapped in a link, yields 99 identifiers, since the
  loop stops after the 100th timestamp.
\<close>

theorem scan_exactly_M_counterexample:
  "length (None # replicate 100
      (Some \<lparr>tagName = ''A'', innerHTML = '''', href = Some ''/u/status/12''\<rparr>)) = 101
   \<and> length (filter wrappedInLink (None # replicate 100
      (Some \<lparr>tagName = ''A'', innerHTML = '''', href = Some ''/u/status/12''\<rparr>))) = 100
   \<and> length (scanTimeNodes (None # replicate 100
      (Some \<lparr>tagName = ''A'', innerHTML = '''', href = Some ''/u/status/12''\<rparr>))) = 99"
proof -
  have t: "trailingId (Some \<lparr>tagName = ''A'', innerHTML = '''', href = Some ''/u/status/12''\<rparr>)
             = Some ''12''"
    by (simp add: trailingId_def)
  have n: "trailingId None = None"
    by (simp add: trailingId_def)
  have k: "take MAX_THREAD_DEPTH (None # replicate 100 x) = None # replicate 99 x"
    for x :: timeNode
    by (simp add: MAX_THREAD_DEPTH_def)
  show ?thesis
    by (simp add: scanTimeNodes_map_filter k List.map_filter_simps n map_filter_replicate t
        wrappedInLink_def)
qed

section \<open>Properties of the identifier extractor\<close>

lemma concat_rev_upt_last:
  assumes "\<And>k. 1 \<le> k \<Longrightarrow> k < n \<Longrightarrow> f k = []"
  shows "concat (map f (rev [1 ..< Suc n])) = (if n = 0 then [] else f n)"
proof (cases n)
  case 0
  then show ?thesis by simp
next
  case (Suc m)
  have "concat (map f (rev [1 ..< n])) = []"
    using assms by auto
  then show ?thesis using Suc by simp
qed

lemma ms_Lit_Seq:
  "ms (Seq (Lit l) r) (c, s) = (if prefix l s then ms r (c, drop (length l) s) else [])"
  by simp

lemma ms_Opt_Lit_Seq:
  "ms (Seq (Opt (Lit l)) r) (c, s) =
     (if prefix l s then ms r (c, drop (length l) s) else []) @ ms r (c, s)"
  by simp

lemma ms_Group_Plus:
  "ms (Group n (Plus p)) (c, s) =
     map (\<lambda>k. (c(n := Some (take k s)), drop k s)) (rev [1 ..< Suc (length (takeWhile p s))])"
proof -
  have "k \<le> length s \<Longrightarrow> length s - length (drop k s) = k" for k
    by simp
  moreover have "length (takeWhile p s) \<le> length s"
    by (rule length_takeWhile_le)
  ultimately show ?thesis
    by (auto simp: comp_def)
qed

lemma ms_Group_Plus_Seq:
  assumes "\<And>k c'. k < length (takeWhile p s) \<Longrightarrow> ms r (c', drop k s) = []"
  shows "ms (Seq (Group n (Plus p)) r) (c, s) =
     (if takeWhile p s = [] then []
      else ms r (c(n := Some (takeWhile p s)), dropWhile p s))"
proof -
  let ?m = "length (takeWhile p s)"
  let ?f = "\<lambda>k. ms r (c(n := Some (take k s)), drop k s)"
  have "ms (Seq (Group n (Plus p)) r) (c, s) = concat (map ?f (rev [1 ..< Suc ?m]))"
    unfolding ms.simps(5) ms_Group_Plus by (simp add: comp_def)
  also have "\<dots> = (if ?m = 0 then [] else ?f ?m)"
    by (rule concat_rev_upt_last) (use assms in simp)
  also have "\<dots> = (if takeWhile p s = [] then []
      else ms r (c(n := Some (takeWhile p s)), dropWhile p s))"
    by (simp add: takeWhile_eq_take [symmetric] dropWhile_eq_drop [symmetric])
  finally show ?thesis .
qed

lemma drop_in_takeWhile:
  assumes "k < length (takeWhile p s)"
  shows "\<exists>x xs. drop k s = x # xs \<and> p x"
proof -
  have k: "k < length s"
    using assms length_takeWhile_le [of p s] by simp
  have "p (s ! k)"
    using assms by (metis nth_mem set_takeWhileD takeWhile_nth)
  then show ?thesis
    using k by (metis Cons_nth_drop_Suc)
qed


lemma first_caps_Cons: "ms r st = (c, s') # rest \<Longrightarrow> first_caps r st = Some c"
  by (simp add: first_caps_def)

lemma ms_Star_hd: "\<exists>s' rest. ms (Star p) (c, s) = (c, s') # rest"
  by (simp add: rev_nth)

lemma ms_tail7_hd:
  "\<exists>s' rest. ms (seq [Opt (Seq (Lit ''/'') (Star is_dot))]) (c, s) = (c, s') # rest"
proof (cases "prefix ''/'' s")
  case True
  obtain s' rest where "ms (Star is_dot) (c, drop 1 s) = (c, s') # rest"
    using ms_Star_hd by blast
  with True show ?thesis
    by simp
next
  case False
  then show ?thesis
    by simp
qed

lemma first_caps_tail6:
  "first_caps (seq [Group 2 (Plus is_digit), Opt (Seq (Lit ''/'') (Star is_dot))]) (c, s) =
     (if takeWhile is_digit s = [] then None
      else Some (c(2 := Some (takeWhile is_digit s))))"
proof (cases "takeWhile is_digit s = []")
  case True
  then show ?thesis
    by (simp add: first_caps_def)
next
  case False
  let ?m = "length (takeWhile is_digit s)"
  let ?t = "seq [Opt (Seq (Lit ''/'') (Star is_dot))]"
  have m: "rev [1 ..< Suc ?m] = ?m # rev [1 ..< ?m]"
    using False by (cases ?m) simp_all
  obtain s' rest where
    h: "ms ?t (c(2 := Some (take ?m s)), drop ?m s) = (c(2 := Some (take ?m s)), s') # rest"
    using ms_tail7_hd by blast
  have "ms (seq [Group 2 (Plus is_digit), Opt (Seq (Lit ''/'') (Star is_dot))]) (c, s) =
          concat (map (\<lambda>k. ms ?t (c(2 := Some (take k s)), drop k s)) (rev [1 ..< Suc ?m]))"
    unfolding seq.simps(2) [of "Group 2 (Plus is_digit)"] ms.simps(5) ms_Group_Plus
    by (simp add: comp_def)
  also have "\<dots> = (c(2 := Some (take ?m s)), s') #
      (rest @ concat (map (\<lambda>k. ms ?t (c(2 := Some (take k s)), drop k s)) (rev [1 ..< ?m])))"
    unfolding m using h by simp
  finally show ?thesis
    using False by (simp add: first_caps_def takeWhile_eq_take [symmetric])
qed


lemma not_word_slash: "\<not> is_word CHR ''/''" and not_word_hash: "\<not> is_word CHR ''#''"
  by (simp_all add: is_word_def is_digit_def)

lemma ms_Opt_Lit_skip:
  assumes "prefix l s \<Longrightarrow> ms R (c, s) = []"
  shows "ms (Seq (Opt (Lit l)) R) (c, s) =
           ms R (c, if prefix l s then drop (length l) s else s)"
  unfolding ms_Opt_Lit_Seq using assms by (cases "prefix l s") simp_all

lemma ms_Opt_Lit_then_Lit:
  assumes "prefix l s \<longrightarrow> \<not> prefix l' s"
  shows "ms (Seq (Opt (Lit l)) (Seq (Lit l') r)) (c, s) =
           ms (Seq (Lit l') r) (c, if prefix l s then drop (length l) s else s)"
  by (rule ms_Opt_Lit_skip) (use assms in simp)

lemma ms_Opt_Lit_then_Plus:
  assumes "prefix l s \<longrightarrow> takeWhile p s = []"
  shows "ms (Seq (Opt (Lit l)) (Seq (Group n (Plus p)) r)) (c, s) =
           ms (Seq (Group n (Plus p)) r) (c, if prefix l s then drop (length l) s else s)"
  by (rule ms_Opt_Lit_skip) (use assms in simp)

lemma ms_Plus_then_Lit:
  assumes "\<not> p x"
  shows "ms (Seq (Group n (Plus p)) (Seq (Lit (x # l)) r)) (c, s) =
     (if takeWhile p s = [] then []
      else ms (Seq (Lit (x # l)) r) (c(n := Some (takeWhile p s)), dropWhile p s))"
proof (rule ms_Group_Plus_Seq)
  fix k c'
  assume "k < length (takeWhile p s)"
  then obtain y ys where d: "drop k s = y # ys" and w: "p y"
    using drop_in_takeWhile by blast
  have "\<not> prefix (x # l) (y # ys)"
    using w assms by auto
  then show "ms (Seq (Lit (x # l)) r) (c', drop k s) = []"
    unfolding ms_Lit_Seq d by (simp only: if_False)
qed

text \<open>The match at one start index, computed step by step.\<close>

lemma first_caps_TWITTER_URL_MATCH:
  "first_caps TWITTER_URL_MATCH (c, s) =
     (if prefix ''twitter.com/'' s then
        (let s1 = drop (length ''twitter.com/'') s;
             s2 = (if prefix ''#!/'' s1 then drop (length ''#!/'') s1 else s1) in
         if takeWhile is_word s2 = [] then None
         else if prefix ''/status'' (dropWhile is_word s2) then
           (let s4 = drop (length ''/status'') (dropWhile is_word s2);
                s5 = (if prefix ''es'' s4 then drop (length ''es'') s4 else s4) in
            if prefix ''/'' s5 then
              (if takeWhile is_digit (drop (length ''/'') s5) = [] then None
               else Some (c(1 := Some (takeWhile is_word s2),
                            2 := Some (takeWhile is_digit (drop (length ''/'') s5)))))
            else None)
         else None)
      else None)"
proof -
  have a: "prefix ''#!/'' t \<longrightarrow> takeWhile is_word t = []" for t
    using not_word_hash by (cases t) auto
  have b: "prefix ''es'' t \<longrightarrow> \<not> prefix ''/'' t" for t
    by (cases t) auto
  have fc: "first_caps r st = None" if "ms r st = []" for r st
    using that by (simp add: first_caps_def)
  have eq: "first_caps r st = first_caps r' st'" if "ms r st = ms r' st'" for r st r' st'
    using that by (simp add: first_caps_def)
  have m: "ms TWITTER_URL_MATCH (c, s) =
     (if prefix ''twitter.com/'' s then
        (let s1 = drop (length ''twitter.com/'') s;
             s2 = (if prefix ''#!/'' s1 then drop (length ''#!/'') s1 else s1) in
         if takeWhile is_word s2 = [] then []
         else if prefix ''/status'' (dropWhile is_word s2) then
           (let s4 = drop (length ''/status'') (dropWhile is_word s2);
                s5 = (if prefix ''es'' s4 then drop (length ''es'') s4 else s4) in
            if prefix ''/'' s5 then
              ms (seq [Group 2 (Plus is_digit), Opt (Seq (Lit ''/'') (Star is_dot))])
                (c(1 := Some (takeWhile is_word s2)), drop (length ''/'') s5)
            else [])
         else [])
      else [])"
    unfolding TWITTER_URL_MATCH_def Let_def
    unfolding seq.simps(2) [of "Lit ''twitter.com/''"] seq.simps(2) [of "Opt (Lit ''#!/'')"]
      seq.simps(2) [of "Group 1 (Plus is_word)"] seq.simps(2) [of "Lit ''/status''"]
      seq.simps(2) [of "Opt (Lit ''es'')"] seq.simps(2) [of "Lit ''/''"]
    unfolding ms_Lit_Seq [of "''twitter.com/''"] ms_Opt_Lit_then_Plus [OF a]
      ms_Plus_then_Lit [of is_word "CHR ''/''", OF not_word_slash] ms_Lit_Seq [of "''/status''"]
      ms_Opt_Lit_then_Lit [OF b] ms_Lit_Seq [of "''/''"]
    ..
  have "first_caps TWITTER_URL_MATCH (c, s) =
     (if prefix ''twitter.com/'' s then
        (let s1 = drop (length ''twitter.com/'') s;
             s2 = (if prefix ''#!/'' s1 then drop (length ''#!/'') s1 else s1) in
         if takeWhile is_word s2 = [] then None
         else if prefix ''/status'' (dropWhile is_word s2) then
           (let s4 = drop (length ''/status'') (dropWhile is_word s2);
                s5 = (if prefix ''es'' s4 then drop (length ''es'') s4 else s4) in
            if prefix ''/'' s5 then
              first_caps (seq [Group 2 (Plus is_digit), Opt (Seq (Lit ''/'') (Star is_dot))])
                (c(1 := Some (takeWhile is_word s2)), drop (length ''/'') s5)
            else None)
         else None)
      else None)"
    unfolding first_caps_def m Let_def by (simp del: ms.simps seq.simps)
  then show ?thesis
    unfolding first_caps_tail6 .
qed


lemma prefix_drop: "prefix l s \<Longrightarrow> s = l @ drop (length l) s"
  by (auto simp: prefix_def)

lemma takeWhile_digits_rest:
  assumes "list_all is_digit ds" "case rest of [] \<Rightarrow> True | r # _ \<Rightarrow> \<not> is_digit r"
  shows "takeWhile is_digit (ds @ rest) = ds"
proof -
  have "takeWhile is_digit rest = []"
    using assms(2) by (cases rest) simp_all
  then show ?thesis
    using assms(1) by (simp add: list_all_iff)
qed

lemma statusUrlAt_first_caps:
  assumes "statusUrlAt s ds"
  shows "\<exists>c'. first_caps TWITTER_URL_MATCH (c, s) = Some c' \<and> c' 2 = Some ds"
proof -
  from assms obtain hb user es rest where
    s: "s = ''twitter.com/'' @ hb @ user @ ''/status'' @ es @ ''/'' @ ds @ rest"
    and hb: "hb = [] \<or> hb = ''#!/''"
    and user: "user \<noteq> []" "list_all is_word user"
    and es: "es = [] \<or> es = ''es''"
    and ds: "ds \<noteq> []" "list_all is_digit ds"
    and rest: "case rest of [] \<Rightarrow> True | r # _ \<Rightarrow> \<not> is_digit r"
    unfolding statusUrlAt_def by blast
  define s2 where "s2 = user @ ''/status'' @ es @ ''/'' @ ds @ rest"
  define s5 where "s5 = ''/'' @ ds @ rest"
  have p0: "prefix ''twitter.com/'' s"
    unfolding s by simp
  have s1: "drop (length ''twitter.com/'') s = hb @ s2"
    unfolding s s2_def by simp
  have nh: "\<not> prefix ''#!/'' s2"
    using user not_word_hash unfolding s2_def by (cases user) auto
  have e2: "(if prefix ''#!/'' (hb @ s2) then drop (length ''#!/'') (hb @ s2) else hb @ s2) = s2"
    using hb nh by auto
  have tw: "takeWhile is_word s2 = user"
    unfolding s2_def using user(2) not_word_slash by (simp add: list_all_iff)
  have dw: "dropWhile is_word s2 = ''/status'' @ es @ s5"
    unfolding s2_def s5_def using user(2) not_word_slash by (simp add: list_all_iff)
  have p3: "prefix ''/status'' (dropWhile is_word s2)"
    unfolding dw by simp
  have s4: "drop (length ''/status'') (dropWhile is_word s2) = es @ s5"
    unfolding dw by simp
  have ne: "\<not> prefix ''es'' s5"
    unfolding s5_def by simp
  have e5: "(if prefix ''es'' (es @ s5) then drop (length ''es'') (es @ s5) else es @ s5) = s5"
    using es ne by auto
  have p5: "prefix ''/'' s5"
    unfolding s5_def by simp
  have d5: "takeWhile is_digit (drop (length ''/'') s5) = ds"
    unfolding s5_def using takeWhile_digits_rest [OF ds(2) rest] by simp
  show ?thesis
    unfolding first_caps_TWITTER_URL_MATCH Let_def s1 e2 tw dw
    unfolding dw [symmetric] s4 e5 d5
    using p0 p3 p5 user(1) ds(1) by simp
qed

lemma first_caps_statusUrlAt:
  assumes "first_caps TWITTER_URL_MATCH (c, s) = Some c'"
  shows "\<exists>ds. c' 2 = Some ds \<and> statusUrlAt s ds"
proof -
  define s1 where "s1 = drop (length ''twitter.com/'') s"
  define hb where "hb = (if prefix ''#!/'' s1 then ''#!/'' else [])"
  define s2 where "s2 = (if prefix ''#!/'' s1 then drop (length ''#!/'') s1 else s1)"
  define s3 where "s3 = dropWhile is_word s2"
  define s4 where "s4 = drop (length ''/status'') s3"
  define es where "es = (if prefix ''es'' s4 then ''es'' else [])"
  define s5 where "s5 = (if prefix ''es'' s4 then drop (length ''es'') s4 else s4)"
  define s6 where "s6 = drop (length ''/'') s5"
  have all: "prefix ''twitter.com/'' s \<and> takeWhile is_word s2 \<noteq> [] \<and> prefix ''/status'' s3
      \<and> prefix ''/'' s5 \<and> takeWhile is_digit s6 \<noteq> []
      \<and> c' = c(1 := Some (takeWhile is_word s2), 2 := Some (takeWhile is_digit s6))"
    using assms
    unfolding first_caps_TWITTER_URL_MATCH Let_def s1_def [symmetric] s2_def [symmetric]
      s3_def [symmetric] s4_def [symmetric] s5_def [symmetric] s6_def [symmetric]
    by (auto split: if_splits)
  have "s = ''twitter.com/'' @ s1"
    using all prefix_drop unfolding s1_def by blast
  moreover have "s1 = hb @ s2"
    unfolding hb_def s2_def using prefix_drop [of "''#!/''" s1] by auto
  moreover have "s2 = takeWhile is_word s2 @ s3"
    unfolding s3_def by simp
  moreover have "s3 = ''/status'' @ s4"
    using all prefix_drop unfolding s4_def by blast
  moreover have "s4 = es @ s5"
    unfolding es_def s5_def using prefix_drop [of "''es''" s4] by auto
  moreover have "s5 = ''/'' @ s6"
    using all prefix_drop unfolding s6_def by blast
  moreover have "s6 = takeWhile is_digit s6 @ dropWhile is_digit s6"
    by simp
  ultimately have s: "s = ''twitter.com/'' @ hb @ takeWhile is_word s2 @ ''/status'' @ es @ ''/''
      @ takeWhile is_digit s6 @ dropWhile is_digit s6"
    by (metis append.assoc)
  have r: "case dropWhile is_digit s6 of [] \<Rightarrow> True | r # _ \<Rightarrow> \<not> is_digit r"
  proof (cases "dropWhile is_digit s6")
    case Nil
    show ?thesis unfolding Nil by simp
  next
    case (Cons r rs)
    have "dropWhile is_digit s6 \<noteq> []"
      unfolding Cons by simp
    then have "\<not> is_digit (hd (dropWhile is_digit s6))"
      by (rule hd_dropWhile)
    then show ?thesis unfolding Cons by simp
  qed
  have hb: "hb = [] \<or> hb = ''#!/''" and es: "es = [] \<or> es = ''es''"
    by (simp_all add: hb_def es_def)
  have w: "list_all is_word (takeWhile is_word s2)"
    and d: "list_all is_digit (takeWhile is_digit s6)"
    by (auto simp: list_all_iff dest: set_takeWhileD)
  have "statusUrlAt s (takeWhile is_digit s6)"
    unfolding statusUrlAt_def
    using s hb es w d r all by blast
  moreover have "c' 2 = Some (takeWhile is_digit s6)"
    using all by simp
  ultimately show ?thesis
    by blast
qed


lemma js_match_None:
  "js_match r url = None \<longleftrightarrow> (\<forall>pre s. url = pre @ s \<longrightarrow> first_caps r (\<lambda>_. None, s) = None)"
proof (induction url)
  case Nil
  then show ?case by simp
next
  case (Cons x xs)
  have "(\<forall>pre s. x # xs = pre @ s \<longrightarrow> first_caps r (\<lambda>_. None, s) = None) \<longleftrightarrow>
        first_caps r (\<lambda>_. None, x # xs) = None
        \<and> (\<forall>pre s. xs = pre @ s \<longrightarrow> first_caps r (\<lambda>_. None, s) = None)"
    by (auto simp: Cons_eq_append_conv)
  with Cons show ?case
    by (simp split: option.splits)
qed

lemma js_match_Some:
  assumes "js_match r url = Some c"
  shows "\<exists>pre s. url = pre @ s \<and> first_caps r (\<lambda>_. None, s) = Some c
           \<and> (\<forall>pre' s'. url = pre' @ s' \<and> length pre' < length pre
                 \<longrightarrow> first_caps r (\<lambda>_. None, s') = None)"
  using assms
proof (induction url)
  case Nil
  then show ?case by simp
next
  case (Cons x xs)
  show ?case
  proof (cases "first_caps r (\<lambda>_. None, x # xs)")
    case (Some c0)
    with Cons.prems have "c0 = c" by simp
    with Some have "x # xs = [] @ (x # xs) \<and> first_caps r (\<lambda>_. None, x # xs) = Some c
        \<and> (\<forall>pre' s'. x # xs = pre' @ s' \<and> length pre' < length ([]::string)
                 \<longrightarrow> first_caps r (\<lambda>_. None, s') = None)"
      by simp
    then show ?thesis by blast
  next
    case None
    with Cons.prems have "js_match r xs = Some c" by simp
    then obtain pre s where ps: "xs = pre @ s" "first_caps r (\<lambda>_. None, s) = Some c"
      and lm: "\<And>pre' s'. xs = pre' @ s' \<Longrightarrow> length pre' < length pre
                 \<Longrightarrow> first_caps r (\<lambda>_. None, s') = None"
      using Cons.IH by blast
    have "first_caps r (\<lambda>_. None, s') = None"
      if "x # xs = pre' @ s'" "length pre' < length (x # pre)" for pre' s'
    proof (cases pre')
      case Nil
      with that None show ?thesis by simp
    next
      case (Cons y ys)
      with that have "xs = ys @ s'" "length ys < length pre" by simp_all
      then show ?thesis by (rule lm)
    qed
    with ps have "x # xs = (x # pre) @ s \<and> first_caps r (\<lambda>_. None, s) = Some c
        \<and> (\<forall>pre' s'. x # xs = pre' @ s' \<and> length pre' < length (x # pre)
                 \<longrightarrow> first_caps r (\<lambda>_. None, s') = None)"
      by simp
    then show ?thesis by blast
  qed
qed

text \<open>
  Claim C5. For every string that contains an occurrence of the recognised status shape,
  the extractor returns the digit sequence that follows \<^verbatim>\<open>status/\<close> or \<^verbatim>\<open>statuses/\<close> in
  the leftmost occurrence (all of its digits); for every other string it returns
  \<^verbatim>\<open>undefined\<close>. The extractor is a total function: it has no error result.
\<close>

theorem tweetIdFromStatusUrl_status_id:
  "(matchesStatusPattern url \<longrightarrow>
      (\<exists>pre s ds. url = pre @ s \<and> statusUrlAt s ds
         \<and> (\<forall>pre' s' ds'. url = pre' @ s' \<and> statusUrlAt s' ds' \<longrightarrow> length pre \<le> length pre')
         \<and> tweetIdFromStatusUrl url = Some ds))
   \<and> (\<not> matchesStatusPattern url \<longrightarrow> tweetIdFromStatusUrl url = None)"
proof (cases "js_match TWITTER_URL_MATCH url")
  case None
  have "\<not> matchesStatusPattern url"
  proof
    assume "matchesStatusPattern url"
    then obtain pre s ds where "url = pre @ s" "statusUrlAt s ds"
      unfolding matchesStatusPattern_def by blast
    then show False
      using None statusUrlAt_first_caps [of s ds "\<lambda>_. None"] by (auto simp: js_match_None)
  qed
  with None show ?thesis
    by (simp add: tweetIdFromStatusUrl_def)
next
  case (Some c)
  then obtain pre s where ps: "url = pre @ s"
    "first_caps TWITTER_URL_MATCH (\<lambda>_. None, s) = Some c"
    and lm: "\<And>pre' s'. url = pre' @ s' \<Longrightarrow> length pre' < length pre
                 \<Longrightarrow> first_caps TWITTER_URL_MATCH (\<lambda>_. None, s') = None"
    using js_match_Some [of TWITTER_URL_MATCH url c] by blast
  obtain ds where ds: "c 2 = Some ds" "statusUrlAt s ds"
    using first_caps_statusUrlAt [OF ps(2)] by blast
  have left: "length pre \<le> length pre'" if "url = pre' @ s'" "statusUrlAt s' ds'"
    for pre' s' ds'
  proof (rule ccontr)
    assume "\<not> length pre \<le> length pre'"
    then have "first_caps TWITTER_URL_MATCH (\<lambda>_. None, s') = None"
      using lm that(1) by simp
    then show False
      using statusUrlAt_first_caps [OF that(2), of "\<lambda>_. None"] by simp
  qed
  have m: "matchesStatusPattern url"
    unfolding matchesStatusPattern_def using ps(1) ds(2) by blast
  have t: "tweetIdFromStatusUrl url = Some ds"
    using Some ds(1) by (simp add: tweetIdFromStatusUrl_def)
  show ?thesis
    using m t ps(1) ds(2) left by blast
qed

text \<open>A status link with a query string, and a link with no digits after \<^verbatim>\<open>status/\<close>.\<close>

theorem tweetIdFromStatusUrl_witness:
  "matchesStatusPattern ''https://twitter.com/user/status/1234567?s=20''
   \<and> tweetIdFromStatusUrl ''https://twitter.com/user/status/1234567?s=20'' = Some ''1234567''
   \<and> \<not> matchesStatusPattern ''https://twitter.com/user/status/''
   \<and> tweetIdFromStatusUrl ''https://twitter.com/user/status/'' = None"
proof -
  have a: "tweetIdFromStatusUrl ''https://twitter.com/user/status/1234567?s=20'' = Some ''1234567''"
    by (simp add: tweetIdFromStatusUrl_def TWITTER_URL_MATCH_def is_word_def is_digit_def
        first_caps_def)
  have b: "tweetIdFromStatusUrl ''https://twitter.com/user/status/'' = None"
    by (simp add: tweetIdFromStatusUrl_def TWITTER_URL_MATCH_def is_word_def is_digit_def
        first_caps_def)
  show ?thesis
    using a b
      tweetIdFromStatusUrl_status_id [of "''https://twitter.com/user/status/1234567?s=20''"]
      tweetIdFromStatusUrl_status_id [of "''https://twitter.com/user/status/''"]
    by (metis option.distinct(1))
qed

section \<open>Properties of the handler\<close>

subsection \<open>The fetchers and the sequencing of calls\<close>

lemma getTweetById_token:
  "\<not> no_token w \<Longrightarrow> getTweetById w i = (http_tweet w i, [HttpGetTweet i])"
  by (simp add: getTweetById_def await_get_def)

lemma getTweetThread_token:
  "\<not> no_token w \<Longrightarrow> getTweetThread w c = (http_search w c, [HttpSearchRecent c])"
  by (simp add: getTweetThread_def await_get_def)

lemma getTweetsByIds_token:
  "\<not> no_token w \<Longrightarrow> getTweetsByIds w ids = (http_tweets w ids, [HttpGetTweets ids])"
  by (simp add: getTweetsByIds_def await_get_def)

lemma snd_bind_prefix: "prefix (snd m) (snd (bind m f))"
  by (cases m) (auto simp: bind_def split: sum.splits prod.splits)

lemma getRecentTweets_token:
  assumes "\<not> no_token w"
  shows "getRecentTweets w c =
     (case http_search w c of
        Inl e \<Rightarrow> Inl e
      | Inr thread \<Rightarrow>
          Inr (if result_count thread = 0 then [] else rev (getTweetsFromResponse thread)),
      [HttpSearchRecent c])"
  using assms
  by (simp add: getRecentTweets_def getTweetThread_token bind_def ret_def split: sum.splits)

lemma tweetIdFromStatusUrl_nonempty:
  assumes "tweetIdFromStatusUrl u = Some d"
  shows "d \<noteq> []"
proof -
  from assms obtain c where c: "js_match TWITTER_URL_MATCH u = Some c" "c 2 = Some d"
    by (auto simp: tweetIdFromStatusUrl_def split: option.splits)
  then obtain s where "first_caps TWITTER_URL_MATCH (\<lambda>_. None, s) = Some c"
    using js_match_Some by blast
  then obtain ds where "c 2 = Some ds" "statusUrlAt s ds"
    using first_caps_statusUrlAt by blast
  with c show ?thesis
    by (auto simp: statusUrlAt_def)
qed

subsection \<open>The second fetch for a reply\<close>

lemma resolveRoot_reply:
  assumes "\<not> no_token w" "tweetIdFromStatusUrl pageUrl = Some tweetId"
    "http_tweet w tweetId = Inr first" "conversation_id (tweet_data first) \<noteq> tweetId"
  shows "resolveRoot w pageUrl =
           (map_sum id (\<lambda>root. (root, conversation_id (tweet_data first)))
              (http_tweet w (conversation_id (tweet_data first))),
            [HttpGetTweet tweetId, HttpGetTweet (conversation_id (tweet_data first))])"
proof -
  have n: "tweetId \<noteq> []"
    using assms(2) by (rule tweetIdFromStatusUrl_nonempty)
  show ?thesis
    using assms n
    by (cases "http_tweet w (conversation_id (tweet_data first))")
      (simp_all add: resolveRoot_def getTweetById_token bind_def ret_def Let_def)
qed

subsection \<open>The browser-automation fallback\<close>

lemma scanPage_eq:
  "scanPage w u =
     (case newPage_result w of
        Some e \<Rightarrow> (Inl e, [NewPage])
      | None \<Rightarrow>
          (case goto_result w u of
             Some e \<Rightarrow> (Inl e, [NewPage, Goto u])
           | None \<Rightarrow>
               (case evaluate_result w of
                  Some e \<Rightarrow> (Inl e, [NewPage, Goto u, WaitFor 4000, Evaluate])
                | None \<Rightarrow> (Inr (inPage w), [NewPage, Goto u, WaitFor 4000, Evaluate]))))"
  by (simp add: scanPage_def bind_def await_call_def ret_def split: option.splits)

lemma getTweetIds_eq:
  "getTweetIds w tweetId =
     (case launch_result w of
        Some e \<Rightarrow> (Inl e, [Launch])
      | None \<Rightarrow>
          (case scanPage w (''https://twitter.com/anyone/status/'' @ tweetId) of
             (Inr ids, t) \<Rightarrow>
               (case close_result w of None \<Rightarrow> Inr ids | Some e' \<Rightarrow> Inl e',
                Launch # t @ [BrowserClose])
           | (Inl e, t) \<Rightarrow>
               (case close_result w of None \<Rightarrow> Inr [] | Some e' \<Rightarrow> Inl e',
                Launch # t @ [ConsoleLog e, BrowserClose])))"
  by (simp add: getTweetIds_def Let_def bind_def await_call_def ret_def try_catch_finally_def
      split: option.splits sum.splits prod.splits)

lemma scanPage_no_close: "BrowserClose \<notin> set (snd (scanPage w u))"
  by (simp add: scanPage_eq split: option.splits)

text \<open>
  Claim C9. Whenever the launch gave a browser instance, its \<^verbatim>\<open>close\<close> is called exactly
  once and is the last call of the fallback, whatever the scan did (it succeeded, or
  \<^verbatim>\<open>newPage\<close>, \<^verbatim>\<open>goto\<close> or \<^verbatim>\<open>evaluate\<close> rejected). When the launch itself rejects there is
  no instance, and the launch is the only call made.
\<close>

theorem browser_closed_exactly_once:
  "(launch_result w = None \<longrightarrow>
      length (filter (\<lambda>ev. ev = BrowserClose) (snd (getTweetIds w tweetId))) = 1
      \<and> last (snd (getTweetIds w tweetId)) = BrowserClose)
   \<and> (\<forall>e. launch_result w = Some e \<longrightarrow> getTweetIds w tweetId = (Inl e, [Launch]))"
proof -
  obtain r t where s: "scanPage w (''https://twitter.com/anyone/status/'' @ tweetId) = (r, t)"
    by (cases "scanPage w (''https://twitter.com/anyone/status/'' @ tweetId)")
  have "BrowserClose \<notin> set t"
    using scanPage_no_close [of w "''https://twitter.com/anyone/status/'' @ tweetId"] s by simp
  then have "filter (\<lambda>ev. ev = BrowserClose) t = []"
    by (auto simp: filter_empty_conv)
  then show ?thesis
    using s by (cases r) (simp_all add: getTweetIds_eq)
qed

text \<open>
  A run in which \<^verbatim>\<open>evaluate\<close> rejects: the close is the last call. A run in which the
  launch rejects: no close.
\<close>

theorem browser_closed_witness:
  "launch_result (exampleWorld\<lparr>evaluate_result := Some (Rejected ''detached'')\<rparr>) = None
   \<and> getTweetIds (exampleWorld\<lparr>evaluate_result := Some (Rejected ''detached'')\<rparr>) ''20'' =
       (Inr [], [Launch, NewPage, Goto ''https://twitter.com/anyone/status/20'', WaitFor 4000,
                 Evaluate, ConsoleLog (Rejected ''detached''), BrowserClose])
   \<and> launch_result (exampleWorld\<lparr>launch_result := Some (Rejected ''no chromium'')\<rparr>)
       = Some (Rejected ''no chromium'')
   \<and> getTweetIds (exampleWorld\<lparr>launch_result := Some (Rejected ''no chromium'')\<rparr>) ''20'' =
       (Inl (Rejected ''no chromium''), [Launch])"
proof -
  have l: "launch_result (exampleWorld\<lparr>evaluate_result := Some (Rejected ''detached'')\<rparr>) = None"
    by (simp add: exampleWorld_def)
  have g: "getTweetIds (exampleWorld\<lparr>evaluate_result := Some (Rejected ''detached'')\<rparr>) ''20'' =
       (Inr [], [Launch, NewPage, Goto ''https://twitter.com/anyone/status/20'', WaitFor 4000,
                 Evaluate, ConsoleLog (Rejected ''detached''), BrowserClose])"
    by (simp add: getTweetIds_eq scanPage_eq exampleWorld_def)
  show ?thesis
    using browser_closed_exactly_once
        [of "exampleWorld\<lparr>evaluate_result := Some (Rejected ''detached'')\<rparr>" "''20''"]
      browser_closed_exactly_once
        [of "exampleWorld\<lparr>launch_result := Some (Rejected ''no chromium'')\<rparr>" "''20''"]
      l g
    by simp
qed

lemma getTweetIds_events:
  "hd (snd (getTweetIds w tweetId)) = Launch
   \<and> (\<forall>c. HttpSearchRecent c \<notin> set (snd (getTweetIds w tweetId)))"
  by (auto simp: getTweetIds_eq scanPage_eq split: option.splits)

lemma getOldTweets_events:
  "snd (getOldTweets w c) =
     snd (getTweetIds w c)
     @ (case fst (getTweetIds w c) of
          Inl e \<Rightarrow> []
        | Inr ids \<Rightarrow> if no_token w then [] else [HttpGetTweets ids])"
  by (cases "getTweetIds w c")
    (auto simp: getOldTweets_def bind_def ret_def getTweetsByIds_def throw_def await_get_def
      split: sum.splits prod.splits)

text \<open>
  Claim C8, as amended. When a call of the scan (\<^verbatim>\<open>newPage\<close>, \<^verbatim>\<open>goto\<close>, \<^verbatim>\<open>evaluate\<close>)
  rejects, the fallback logs the exception and then closes the browser; if the close
  resolves, the fallback returns the empty list and the resolution goes on with the batch
  fetch of no identifiers; if the close rejects too, its exception is the outcome of the
  fallback.
\<close>

theorem scan_exception_yields_empty_list:
  assumes "launch_result w = None"
    and "scanPage w (''https://twitter.com/anyone/status/'' @ tweetId) = (Inl e, t)"
  shows "snd (getTweetIds w tweetId) = Launch # t @ [ConsoleLog e, BrowserClose]
         \<and> (close_result w = None \<longrightarrow>
              fst (getTweetIds w tweetId) = Inr []
              \<and> (\<not> no_token w \<longrightarrow>
                   snd (getOldTweets w tweetId) =
                     Launch # t @ [ConsoleLog e, BrowserClose, HttpGetTweets []]))
         \<and> (\<forall>e'. close_result w = Some e' \<longrightarrow> fst (getTweetIds w tweetId) = Inl e')"
  using assms by (simp add: getOldTweets_events) (simp add: getTweetIds_eq)

text \<open>
  A run in which \<^verbatim>\<open>newPage\<close> rejects and the close resolves.
\<close>

theorem scan_exception_witness:
  "launch_result (exampleWorld\<lparr>newPage_result := Some (Rejected ''crashed'')\<rparr>) = None
   \<and> scanPage (exampleWorld\<lparr>newPage_result := Some (Rejected ''crashed'')\<rparr>)
        (''https://twitter.com/anyone/status/'' @ ''20'') = (Inl (Rejected ''crashed''), [NewPage])
   \<and> close_result (exampleWorld\<lparr>newPage_result := Some (Rejected ''crashed'')\<rparr>) = None
   \<and> \<not> no_token (exampleWorld\<lparr>newPage_result := Some (Rejected ''crashed'')\<rparr>)
   \<and> getTweetIds (exampleWorld\<lparr>newPage_result := Some (Rejected ''crashed'')\<rparr>) ''20'' =
       (Inr [], [Launch, NewPage, ConsoleLog (Rejected ''crashed''), BrowserClose])
   \<and> snd (getOldTweets (exampleWorld\<lparr>newPage_result := Some (Rejected ''crashed'')\<rparr>) ''20'') =
       [Launch, NewPage, ConsoleLog (Rejected ''crashed''), BrowserClose, HttpGetTweets []]"
proof -
  have l: "launch_result (exampleWorld\<lparr>newPage_result := Some (Rejected ''crashed'')\<rparr>) = None"
    by (simp add: exampleWorld_def)
  have s: "scanPage (exampleWorld\<lparr>newPage_result := Some (Rejected ''crashed'')\<rparr>)
        (''https://twitter.com/anyone/status/'' @ ''20'') = (Inl (Rejected ''crashed''), [NewPage])"
    by (simp add: scanPage_eq)
  have c: "close_result (exampleWorld\<lparr>newPage_result := Some (Rejected ''crashed'')\<rparr>) = None"
    by (simp add: exampleWorld_def)
  have n: "\<not> no_token (exampleWorld\<lparr>newPage_result := Some (Rejected ''crashed'')\<rparr>)"
    by (simp add: no_token_def exampleWorld_def)
  show ?thesis
    using scan_exception_yields_empty_list [OF l s] l s c n by (simp add: prod_eq_iff)
qed

text \<open>
  Claim C8 as stated fails when the close rejects as well: \<^verbatim>\<open>evaluate\<close> rejects, the
  exception is caught and logged, and the fallback ends with the exception of the close
  instead of returning the empty list.
\<close>

theorem scan_exception_close_fails_counterexample:
  "scanPage (exampleWorld\<lparr>evaluate_result := Some (Rejected ''detached''),
                          close_result := Some (Rejected ''closed'')\<rparr>)
     ''https://twitter.com/anyone/status/20''
     = (Inl (Rejected ''detached''),
        [NewPage, Goto ''https://twitter.com/anyone/status/20'', WaitFor 4000, Evaluate])
   \<and> getTweetIds (exampleWorld\<lparr>evaluate_result := Some (Rejected ''detached''),
                                close_result := Some (Rejected ''closed'')\<rparr>) ''20''
     = (Inl (Rejected ''closed''),
        [Launch, NewPage, Goto ''https://twitter.com/anyone/status/20'', WaitFor 4000, Evaluate,
         ConsoleLog (Rejected ''detached''), BrowserClose])"
  by (simp add: getTweetIds_eq scanPage_eq exampleWorld_def)

subsection \<open>Routing by age\<close>

text \<open>
  Claim C3, as amended. The decision is taken once, from the creation time of the root
  post: when the post is more than seven days old, the resolver launches the browser
  first, makes no conversation search, and fetches the batch of the scraped identifiers
  after the scrape; when the post is at most seven days old (exactly seven days included)
  or its creation time does not parse, the only call is the conversation search.
\<close>

theorem age_routing:
  "(olderThan7Days w tweet \<longleftrightarrow>
      (\<exists>t. date_getTime w (created_at (tweet_data tweet)) = Some t
           \<and> 7 * 24 * 60 * 60 * 1000 < now w - t))
   \<and> (olderThan7Days w tweet \<longrightarrow>
        hd (snd (resolveTweets w tweet c)) = Launch
        \<and> HttpSearchRecent c \<notin> set (snd (resolveTweets w tweet c))
        \<and> snd (resolveTweets w tweet c) =
            snd (getTweetIds w c)
            @ (case fst (getTweetIds w c) of
                 Inl e \<Rightarrow> []
               | Inr ids \<Rightarrow> if no_token w then [] else [HttpGetTweets ids]))
   \<and> (\<not> olderThan7Days w tweet \<longrightarrow> \<not> no_token w \<longrightarrow>
        snd (resolveTweets w tweet c) = [HttpSearchRecent c])"
proof -
  have a: "olderThan7Days w tweet \<longleftrightarrow>
      (\<exists>t. date_getTime w (created_at (tweet_data tweet)) = Some t
           \<and> 7 * 24 * 60 * 60 * 1000 < now w - t)"
    by (auto simp: olderThan7Days_def split: option.splits)
  have h: "hd (snd (getOldTweets w c)) = Launch"
    using getTweetIds_events [of w c]
    by (cases "snd (getTweetIds w c)") (auto simp: getOldTweets_events getTweetIds_eq split: option.splits prod.splits sum.splits)
  have n: "HttpSearchRecent c \<notin> set (snd (getOldTweets w c))"
    using getTweetIds_events [of w c]
    by (auto simp: getOldTweets_events split: sum.splits)
  have r: "snd (bind (getRecentTweets w c) (\<lambda>recent. ret (tweet # recent))) = [HttpSearchRecent c]"
    if "\<not> no_token w"
    by (simp add: getRecentTweets_token [OF that] bind_def ret_def split: sum.splits)
  have o: "resolveTweets w tweet c = getOldTweets w c" if "olderThan7Days w tweet"
    using that by (simp add: resolveTweets_def)
  have y: "resolveTweets w tweet c = bind (getRecentTweets w c) (\<lambda>recent. ret (tweet # recent))"
    if "\<not> olderThan7Days w tweet"
    using that by (simp add: resolveTweets_def)
  show ?thesis
  proof (intro conjI impI)
    show "olderThan7Days w tweet \<longleftrightarrow>
      (\<exists>t. date_getTime w (created_at (tweet_data tweet)) = Some t
           \<and> 7 * 24 * 60 * 60 * 1000 < now w - t)"
      by (rule a)
  next
    assume "olderThan7Days w tweet"
    then show "hd (snd (resolveTweets w tweet c)) = Launch"
      using h o by simp
  next
    assume "olderThan7Days w tweet"
    then show "HttpSearchRecent c \<notin> set (snd (resolveTweets w tweet c))"
      using n o by simp
  next
    assume "olderThan7Days w tweet"
    then show "snd (resolveTweets w tweet c) =
            snd (getTweetIds w c)
            @ (case fst (getTweetIds w c) of
                 Inl e \<Rightarrow> []
               | Inr ids \<Rightarrow> if no_token w then [] else [HttpGetTweets ids])"
      using o by (simp only: getOldTweets_events)
  next
    assume "\<not> olderThan7Days w tweet" "\<not> no_token w"
    then show "snd (resolveTweets w tweet c) = [HttpSearchRecent c]"
      using r y by simp
  qed
qed

lemma inPage_now: "inPage (w\<lparr>now := n\<rparr>) = inPage w"
  by (simp add: inPage_def showRepliesButton_def)

lemma inPage_exampleWorld: "inPage exampleWorld = [''20'', ''22'']"
  by (simp add: inPage_def exampleWorld_def scanTimeNodes_map_filter MAX_THREAD_DEPTH_def
      List.map_filter_simps trailingId_def)

lemma example_created:
  "date_getTime exampleWorld (created_at (tweet_data (exampleTweet b a))) = Some 1641772800000"
  by (simp add: exampleWorld_def exampleTweet_def examplePost_def)

text \<open>
  The root post of the example, one millisecond more than seven days old (scrape, then
  batch fetch) and one millisecond less (search).
\<close>

theorem age_routing_witness:
  "olderThan7Days (exampleWorld\<lparr>now := 1642377600001\<rparr>) (exampleTweet ''<b>root</b>'' ''7'')
   \<and> snd (resolveTweets (exampleWorld\<lparr>now := 1642377600001\<rparr>)
            (exampleTweet ''<b>root</b>'' ''7'') ''20'')
       = [Launch, NewPage, Goto ''https://twitter.com/anyone/status/20'', WaitFor 4000, Evaluate,
          BrowserClose, HttpGetTweets [''20'', ''22'']]
   \<and> \<not> olderThan7Days (exampleWorld\<lparr>now := 1642377599999\<rparr>) (exampleTweet ''<b>root</b>'' ''7'')
   \<and> \<not> no_token (exampleWorld\<lparr>now := 1642377599999\<rparr>)
   \<and> snd (resolveTweets (exampleWorld\<lparr>now := 1642377599999\<rparr>)
            (exampleTweet ''<b>root</b>'' ''7'') ''20'')
       = [HttpSearchRecent ''20'']"
proof -
  have o: "olderThan7Days (exampleWorld\<lparr>now := 1642377600001\<rparr>) (exampleTweet ''<b>root</b>'' ''7'')"
    by (simp add: olderThan7Days_def example_created)
  have y: "\<not> olderThan7Days (exampleWorld\<lparr>now := 1642377599999\<rparr>)
             (exampleTweet ''<b>root</b>'' ''7'')"
    by (simp add: olderThan7Days_def example_created)
  have t: "\<not> no_token (exampleWorld\<lparr>now := n\<rparr>)" for n
    by (simp add: no_token_def exampleWorld_def)
  have g: "getTweetIds (exampleWorld\<lparr>now := 1642377600001\<rparr>) ''20'' =
      (Inr [''20'', ''22''],
       [Launch, NewPage, Goto ''https://twitter.com/anyone/status/20'', WaitFor 4000, Evaluate,
        BrowserClose])"
  proof -
    have l: "launch_result (exampleWorld\<lparr>now := 1642377600001\<rparr>) = None"
      and c: "close_result (exampleWorld\<lparr>now := 1642377600001\<rparr>) = None"
      by (simp_all add: exampleWorld_def)
    have "newPage_result exampleWorld = None" "goto_result exampleWorld u = None"
      "evaluate_result exampleWorld = None" for u
      by (simp_all add: exampleWorld_def)
    then have sp: "scanPage (exampleWorld\<lparr>now := 1642377600001\<rparr>)
        ''https://twitter.com/anyone/status/20'' =
        (Inr [''20'', ''22''],
         [NewPage, Goto ''https://twitter.com/anyone/status/20'', WaitFor 4000, Evaluate])"
      by (simp add: scanPage_eq inPage_now inPage_exampleWorld)
    show ?thesis
      by (simp add: getTweetIds_eq l c sp)
  qed
  show ?thesis
    using age_routing [of "exampleWorld\<lparr>now := 1642377600001\<rparr>"
        "exampleTweet ''<b>root</b>'' ''7''" "''20''"]
      age_routing [of "exampleWorld\<lparr>now := 1642377599999\<rparr>"
        "exampleTweet ''<b>root</b>'' ''7''" "''20''"]
      o y t
    by (simp add: g)
qed

text \<open>
  Claim C3 as stated fails at the boundary: a root post that is exactly seven days old is
  resolved by the conversation search, not by the scrape.
\<close>

theorem exactly_seven_days_counterexample:
  "date_getTime exampleWorld (created_at (tweet_data (exampleTweet ''<b>root</b>'' ''7'')))
     = Some 1641772800000
   \<and> now exampleWorld - 1641772800000 = 7 * 24 * 60 * 60 * 1000
   \<and> snd (resolveTweets exampleWorld (exampleTweet ''<b>root</b>'' ''7'') ''20'')
       = [HttpSearchRecent ''20'']"
proof -
  have c: "date_getTime exampleWorld (created_at (tweet_data (exampleTweet ''<b>root</b>'' ''7'')))
     = Some 1641772800000"
    by (simp add: exampleWorld_def exampleTweet_def examplePost_def)
  have n: "now exampleWorld = 1642377600000"
    by (simp add: exampleWorld_def)
  have y: "\<not> olderThan7Days exampleWorld (exampleTweet ''<b>root</b>'' ''7'')"
    by (simp add: olderThan7Days_def c n)
  have t: "\<not> no_token exampleWorld"
    by (simp add: no_token_def exampleWorld_def)
  show ?thesis
    using c n y
    by (simp add: resolveTweets_def getRecentTweets_token [OF t] bind_def ret_def
        split: sum.splits)
qed

subsection \<open>The thread of a recent conversation\<close>

lemma map_tweet_data_getTweetsFromResponse:
  "map tweet_data (getTweetsFromResponse response) = tweets_data response"
  by (simp add: getTweetsFromResponse_def comp_def)

text \<open>
  Claim C2, as amended. For a search response with a non-zero result count,
  \<^verbatim>\<open>getRecentTweets\<close> returns the posts of the response in exactly the reverse order, and
  the thread assembled on the Recent path is the root post followed by that reversal.
\<close>

theorem recent_thread_is_root_then_reversed_search:
  assumes "\<not> no_token w" "http_search w c = Inr thread" "result_count thread \<noteq> 0"
  shows "fst (getRecentTweets w c) = Inr (rev (getTweetsFromResponse thread))
         \<and> map tweet_data (rev (getTweetsFromResponse thread)) = rev (tweets_data thread)
         \<and> (\<not> olderThan7Days w tweet \<longrightarrow>
              fst (resolveTweets w tweet c) = Inr (tweet # rev (getTweetsFromResponse thread)))"
  using assms
  by (simp add: getRecentTweets_token resolveTweets_def bind_def ret_def rev_map [symmetric]
      map_tweet_data_getTweetsFromResponse)

text \<open>
  The search response of the example, three posts newest first, comes back oldest first.
\<close>

theorem recent_thread_witness:
  "\<not> no_token exampleWorld
   \<and> http_search exampleWorld ''20'' = Inr exampleSearch
   \<and> result_count exampleSearch \<noteq> 0
   \<and> \<not> olderThan7Days exampleWorld (exampleTweet ''<b>root</b>'' ''7'')
   \<and> map tweet_text (tweets_data exampleSearch) = [''third'', ''second'', ''first'']
   \<and> map_sum id (map (\<lambda>t. tweet_text (tweet_data t))) (fst (getRecentTweets exampleWorld ''20''))
       = Inr [''first'', ''second'', ''third'']"
proof -
  have t: "\<not> no_token exampleWorld"
    by (simp add: no_token_def exampleWorld_def)
  have s: "http_search exampleWorld ''20'' = Inr exampleSearch"
    by (simp add: exampleWorld_def)
  have r: "result_count exampleSearch \<noteq> 0"
    by (simp add: exampleSearch_def)
  have y: "\<not> olderThan7Days exampleWorld (exampleTweet ''<b>root</b>'' ''7'')"
    by (simp add: olderThan7Days_def exampleWorld_def exampleTweet_def examplePost_def)
  have d: "map tweet_text (tweets_data exampleSearch) = [''third'', ''second'', ''first'']"
    by (simp add: exampleSearch_def examplePost_def)
  have "map (\<lambda>t. tweet_text (tweet_data t)) (rev (getTweetsFromResponse exampleSearch))
          = map tweet_text (map tweet_data (rev (getTweetsFromResponse exampleSearch)))"
    by (simp add: comp_def)
  also have "\<dots> = rev (map tweet_text (tweets_data exampleSearch))"
    using recent_thread_is_root_then_reversed_search [OF t s r] by (simp add: rev_map)
  finally have m: "map (\<lambda>t. tweet_text (tweet_data t)) (rev (getTweetsFromResponse exampleSearch))
      = [''first'', ''second'', ''third'']"
    by (simp add: d)
  show ?thesis
    using recent_thread_is_root_then_reversed_search [OF t s r] t s r y d m by simp
qed

text \<open>
  Claim C2 as stated fails: the assembled thread has the root post in front of the three
  reversed search results, so it is not the reversal of the response.
\<close>

theorem recent_thread_root_prepended_counterexample:
  "map tweet_text (tweets_data exampleSearch) = [''third'', ''second'', ''first'']
   \<and> map_sum id (map (\<lambda>t. tweet_text (tweet_data t)))
        (fst (resolveTweets exampleWorld (fst (lookupAuthor (exampleTweet ''<b>root</b>'' ''7'')))
           ''20''))
       = Inr [''<b>root</b>'', ''first'', ''second'', ''third'']"
proof -
  have t: "\<not> no_token exampleWorld"
    by (simp add: no_token_def exampleWorld_def)
  have s: "http_search exampleWorld ''20'' = Inr exampleSearch"
    by (simp add: exampleWorld_def)
  have y: "\<not> olderThan7Days exampleWorld (fst (lookupAuthor (exampleTweet ''<b>root</b>'' ''7'')))"
    by (simp add: olderThan7Days_def exampleWorld_def exampleTweet_def examplePost_def
        lookupAuthor_def split: prod.splits)
  have x: "tweet_text (tweet_data (fst (lookupAuthor (exampleTweet ''<b>root</b>'' ''7''))))
             = ''<b>root</b>''"
    by (simp add: exampleTweet_def examplePost_def lookupAuthor_def split: prod.splits)
  show ?thesis
    using y x
    by (simp add: resolveTweets_def getRecentTweets_token [OF t] s bind_def ret_def)
      (simp add: exampleSearch_def examplePost_def getTweetsFromResponse_def)
qed

subsection \<open>The author lookup\<close>

lemma filterAssign_eq:
  "filterAssign a us =
     (map (\<lambda>u. u\<lparr>user_id := a\<rparr>) us, if a \<noteq> [] then map (\<lambda>u. u\<lparr>user_id := a\<rparr>) us else [])"
  by (induction us) (simp_all add: Let_def)

lemma tweet_data_lookupAuthor: "tweet_data (fst (lookupAuthor t)) = tweet_data t"
  by (simp add: lookupAuthor_def split: prod.splits)

text \<open>
  Claim C10, as amended. For a root post with a non-empty user list, the lookup writes the
  author id of the post into the id of every user of the list; it selects the first user
  of the list (with the overwritten id) whenever the author id is a non-empty string,
  whoever the author is, and selects nobody when the author id is the empty string.
\<close>

theorem lookupAuthor_first_user:
  assumes "users (tweet_includes tweet) = u # us"
  shows "users (tweet_includes (fst (lookupAuthor tweet))) =
           map (\<lambda>x. x\<lparr>user_id := author_id (tweet_data tweet)\<rparr>) (u # us)
         \<and> (author_id (tweet_data tweet) \<noteq> [] \<longrightarrow>
              snd (lookupAuthor tweet) = Some (u\<lparr>user_id := author_id (tweet_data tweet)\<rparr>))
         \<and> (author_id (tweet_data tweet) = [] \<longrightarrow> snd (lookupAuthor tweet) = None)"
  using assms by (simp add: lookupAuthor_def filterAssign_eq index0_def)

text \<open>
  The reply of the example is by the second user of its list; the lookup returns the first.
\<close>

theorem lookupAuthor_first_user_witness:
  "users (tweet_includes (exampleTweet ''reply'' ''8'')) = alice # [bob]
   \<and> snd (lookupAuthor (exampleTweet ''reply'' ''8'')) = Some (alice\<lparr>user_id := ''8''\<rparr>)
   \<and> users (tweet_includes (fst (lookupAuthor (exampleTweet ''reply'' ''8'')))) =
       [alice\<lparr>user_id := ''8''\<rparr>, bob\<lparr>user_id := ''8''\<rparr>]"
proof -
  have u: "users (tweet_includes (exampleTweet ''reply'' ''8'')) = alice # [bob]"
    by (simp add: exampleTweet_def)
  have a: "author_id (tweet_data (exampleTweet ''reply'' ''8'')) = ''8''"
    by (simp add: exampleTweet_def examplePost_def)
  show ?thesis
    using lookupAuthor_first_user [OF u] u a by simp
qed

text \<open>
  Claim C10 as stated fails for the empty author id: the assignment evaluates to the empty
  string, which is falsy, so the filter keeps no user and the lookup selects nobody.
\<close>

theorem lookupAuthor_empty_author_id_counterexample:
  "users (tweet_includes (exampleTweet ''reply'' '''')) = [alice, bob]
   \<and> snd (lookupAuthor (exampleTweet ''reply'' '''')) = None"
  by (simp add: lookupAuthor_def filterAssign_eq index0_def exampleTweet_def examplePost_def)

subsection \<open>Escaping in the produced document\<close>

lemma escapeChar_no_markup:
  "CHR ''<'' \<notin> set (escapeChar c) \<and> CHR ''>'' \<notin> set (escapeChar c)
   \<and> CHR 0x22 \<notin> set (escapeChar c) \<and> CHR 0x27 \<notin> set (escapeChar c)
   \<and> CHR 0x60 \<notin> set (escapeChar c)"
  by (simp add: escapeChar_def)

lemma underscore_escape_no_markup:
  "CHR ''<'' \<notin> set (underscore_escape s) \<and> CHR ''>'' \<notin> set (underscore_escape s)
   \<and> CHR 0x22 \<notin> set (underscore_escape s) \<and> CHR 0x27 \<notin> set (underscore_escape s)
   \<and> CHR 0x60 \<notin> set (underscore_escape s)"
  using escapeChar_no_markup by (auto simp: underscore_escape_def)

lemma underscore_escape_lt:
  "underscore_escape (a @ ''<'' @ b) = underscore_escape a @ ''&lt;'' @ underscore_escape b"
  by (simp add: underscore_escape_def escapeChar_def)

text \<open>
  Claim C1, as amended. In every document the handler produces, the title (also the
  value of \<^verbatim>\<open>og:title\<close>) is the escaped author title and the value of \<^verbatim>\<open>og:description\<close>
  is the escaped text of the root post: neither contains a raw \<open><\<close>, and a \<open><\<close> of the
  post text stands as \<^verbatim>\<open>&lt;\<close> in the description. The paragraphs of the body are
  built by \<open>tweetsContent\<close> from the post texts with their links substituted, and are
  not escaped.
\<close>

theorem metadata_is_escaped:
  assumes "preHandle w pageUrl = (Inr res, evs)"
  shows "\<exists>fetched c author thread.
           fst (resolveRoot w pageUrl) = Inr (fetched, c)
           \<and> snd (lookupAuthor fetched) = Some author
           \<and> fst (resolveTweets w (fst (lookupAuthor fetched)) c) = Inr thread
           \<and> title res = underscore_escape (name author @ '' on Twitter'')
           \<and> content res =
               renderContent
                 (js_replace (profile_image_url author) ''_normal'' ''_400x400'')
                 (underscore_escape (name author @ '' on Twitter''))
                 (underscore_escape (tweet_text (tweet_data fetched)))
                 (tweetsContent pageUrl thread)
                 (tweetUrl w pageUrl author (tweet_data fetched))
           \<and> CHR ''<'' \<notin> set (underscore_escape (name author @ '' on Twitter''))
           \<and> CHR ''<'' \<notin> set (underscore_escape (tweet_text (tweet_data fetched)))
           \<and> (\<forall>a b. tweet_text (tweet_data fetched) = a @ ''<'' @ b \<longrightarrow>
                 underscore_escape (tweet_text (tweet_data fetched))
                   = underscore_escape a @ ''&lt;'' @ underscore_escape b)"
proof -
  obtain r0 t0 where r: "resolveRoot w pageUrl = (r0, t0)"
    by (cases "resolveRoot w pageUrl")
  from assms r obtain fetched c where f: "r0 = Inr (fetched, c)"
    by (cases r0) (auto simp: preHandle_def bind_def)
  obtain tweet ao where l: "lookupAuthor fetched = (tweet, ao)"
    by (cases "lookupAuthor fetched")
  from assms r f l obtain author where a: "ao = Some author"
    by (cases ao) (auto simp: preHandle_def bind_def throw_def)
  obtain r1 t1 where s: "resolveTweets w tweet c = (r1, t1)"
    by (cases "resolveTweets w tweet c")
  from assms r f l a s obtain thread where t: "r1 = Inr thread"
    by (cases r1) (auto simp: preHandle_def bind_def Let_def)
  have td: "tweet_data tweet = tweet_data fetched"
    using tweet_data_lookupAuthor [of fetched] l by simp
  have res: "res = \<lparr>content =
                 renderContent
                   (js_replace (profile_image_url author) ''_normal'' ''_400x400'')
                   (underscore_escape (titleForAuthor author))
                   (underscore_escape (tweet_text (tweet_data fetched)))
                   (tweetsContent pageUrl thread)
                   (tweetUrl w pageUrl author (tweet_data fetched)),
               result_url = pageUrl,
               title = underscore_escape (titleForAuthor author)\<rparr>"
    using assms r f l a s t td by (simp add: preHandle_def bind_def Let_def ret_def)
  show ?thesis
    apply (rule exI [of _ fetched], rule exI [of _ c], rule exI [of _ author],
        rule exI [of _ thread])
    using r f l a s t underscore_escape_no_markup underscore_escape_lt
    by (simp add: res titleForAuthor_def)
qed

lemma resolveRoot_example:
  "resolveRoot exampleWorld exampleUrl =
     (Inr (exampleTweet ''<b>root</b>'' ''7'', ''20''), [HttpGetTweet ''21'', HttpGetTweet ''20''])"
proof -
  have b: "tweetIdFromStatusUrl exampleUrl = Some ''21''"
    by (simp add: exampleUrl_def tweetIdFromStatusUrl_def TWITTER_URL_MATCH_def is_word_def
        is_digit_def first_caps_def)
  have t: "\<not> no_token exampleWorld"
    by (simp add: no_token_def exampleWorld_def)
  have "getTweetById exampleWorld ''21'' = (Inr (exampleTweet ''reply'' ''8''), [HttpGetTweet ''21''])"
    "getTweetById exampleWorld ''20'' = (Inr (exampleTweet ''<b>root</b>'' ''7''), [HttpGetTweet ''20''])"
    by (simp_all add: getTweetById_def t await_get_def) (simp_all add: exampleWorld_def)
  moreover have "conversation_id (tweet_data (exampleTweet ''reply'' ''8'')) = ''20''"
    by (simp add: exampleTweet_def examplePost_def)
  ultimately show ?thesis
    by (simp add: resolveRoot_def b bind_def ret_def Let_def)
qed

lemma lookupAuthor_example:
  "lookupAuthor (exampleTweet ''<b>root</b>'' ''7'') =
     ((exampleTweet ''<b>root</b>'' ''7'')
        \<lparr>tweet_includes := \<lparr>users = [alice, bob\<lparr>user_id := ''7''\<rparr>], media = None\<rparr>\<rparr>, Some alice)"
  by (simp add: lookupAuthor_def exampleTweet_def examplePost_def index0_def Let_def alice_def)

lemma preHandle_example:
  \<open>preHandle exampleWorld exampleUrl =
     (Inr \<lparr>content =
             renderContent
               ''https://img/a_400x400.png''
               ''Alice &lt;3 on Twitter''
               ''&lt;b&gt;root&lt;/b&gt;''
               (''\<newline>      <p><b>root</b></p>\<newline>      \<newline>    ''
                @ ''\<newline>      <p>first</p>\<newline>      \<newline>    ''
                @ ''\<newline>      <p>second</p>\<newline>      \<newline>    ''
                @ ''\<newline>      <p>third</p>\<newline>      \<newline>    '')
               (tweetUrl exampleWorld exampleUrl alice (examplePost ''<b>root</b>'' ''7'')),
           result_url = exampleUrl,
           title = ''Alice &lt;3 on Twitter''\<rparr>,
      [HttpGetTweet ''21'', HttpGetTweet ''20'', HttpSearchRecent ''20''])\<close>
proof -
  let ?root = "(exampleTweet ''<b>root</b>'' ''7'')
        \<lparr>tweet_includes := \<lparr>users = [alice, bob\<lparr>user_id := ''7''\<rparr>], media = None\<rparr>\<rparr>"
  have t: "\<not> no_token exampleWorld"
    by (simp add: no_token_def exampleWorld_def)
  have s: "http_search exampleWorld ''20'' = Inr exampleSearch"
    by (simp add: exampleWorld_def)
  have y: "\<not> olderThan7Days exampleWorld ?root"
    by (simp add: olderThan7Days_def exampleWorld_def exampleTweet_def examplePost_def)
  have th: "resolveTweets exampleWorld ?root ''20'' =
      (Inr (?root # rev (getTweetsFromResponse exampleSearch)), [HttpSearchRecent ''20''])"
    using y by (simp add: resolveTweets_def getRecentTweets_token [OF t] s bind_def ret_def)
      (simp add: exampleSearch_def)
  have tc: "tweetsContent exampleUrl (?root # rev (getTweetsFromResponse exampleSearch)) =
       ''\<newline>      <p><b>root</b></p>\<newline>      \<newline>    ''
             @ ''\<newline>      <p>first</p>\<newline>      \<newline>    ''
             @ ''\<newline>      <p>second</p>\<newline>      \<newline>    ''
             @ ''\<newline>      <p>third</p>\<newline>      \<newline>    ''"
    by (simp add: tweetsContent_def tweetHtml_def substituteUrls_def includesHtml_def
        exampleTweet_def examplePost_def exampleSearch_def getTweetsFromResponse_def)
  have im: "js_replace (profile_image_url alice) ''_normal'' ''_400x400'' = ''https://img/a_400x400.png''"
    by (simp add: js_replace_def alice_def)
  have ti: "underscore_escape (titleForAuthor alice) = ''Alice &lt;3 on Twitter''"
    by (simp add: underscore_escape_def titleForAuthor_def alice_def escapeChar_def)
  have de: "underscore_escape (tweet_text (examplePost ''<b>root</b>'' ''7''))
      = ''&lt;b&gt;root&lt;/b&gt;''"
    by (simp add: underscore_escape_def examplePost_def escapeChar_def)
  have td: "tweet_data ?root = examplePost ''<b>root</b>'' ''7''"
    by (simp add: exampleTweet_def)
  show ?thesis
    by (simp add: preHandle_def resolveRoot_example lookupAuthor_example bind_def th ret_def
        Let_def tc im ti de td del: append_assoc)
qed

text \<open>
  The example run: the author name \<^verbatim>\<open>Alice <3\<close> is escaped in the title, the post text in
  the description.
\<close>

theorem metadata_is_escaped_witness:
  \<open>fst (preHandle exampleWorld exampleUrl) =
     Inr \<lparr>content =
             renderContent
               ''https://img/a_400x400.png''
               ''Alice &lt;3 on Twitter''
               ''&lt;b&gt;root&lt;/b&gt;''
               (''\<newline>      <p><b>root</b></p>\<newline>      \<newline>    ''
                @ ''\<newline>      <p>first</p>\<newline>      \<newline>    ''
                @ ''\<newline>      <p>second</p>\<newline>      \<newline>    ''
                @ ''\<newline>      <p>third</p>\<newline>      \<newline>    '')
               (tweetUrl exampleWorld exampleUrl alice (examplePost ''<b>root</b>'' ''7'')),
           result_url = exampleUrl,
           title = ''Alice &lt;3 on Twitter''\<rparr>
   \<and> CHR ''<'' \<notin> set ''Alice &lt;3 on Twitter''
   \<and> CHR ''<'' \<notin> set ''&lt;b&gt;root&lt;/b&gt;''\<close>
proof -
  from metadata_is_escaped [OF preHandle_example]
  obtain fetched c author where
    "fst (resolveRoot exampleWorld exampleUrl) = Inr (fetched, c)"
    "snd (lookupAuthor fetched) = Some author"
    "''Alice &lt;3 on Twitter'' = underscore_escape (name author @ '' on Twitter'')"
    "CHR ''<'' \<notin> set (underscore_escape (name author @ '' on Twitter''))"
    "CHR ''<'' \<notin> set (underscore_escape (tweet_text (tweet_data fetched)))"
    by auto
  then show ?thesis
    by (simp add: preHandle_example resolveRoot_example underscore_escape_def exampleTweet_def
        examplePost_def escapeChar_def)
qed

text \<open>
  Claim C1 as stated fails for the body: the text \<^verbatim>\<open><b>root</b>\<close> of the root post stands
  raw in its paragraph of the produced document, while the description has it escaped.
\<close>

theorem body_text_not_escaped_counterexample:
  \<open>tweet_text (tweet_data (exampleTweet ''<b>root</b>'' ''7'')) = ''<b>root</b>''
   \<and> map_sum id content (fst (preHandle exampleWorld exampleUrl)) =
     Inr (renderContent
            ''https://img/a_400x400.png''
            ''Alice &lt;3 on Twitter''
            ''&lt;b&gt;root&lt;/b&gt;''
            (''\<newline>      <p><b>root</b></p>\<newline>      \<newline>    ''
             @ ''\<newline>      <p>first</p>\<newline>      \<newline>    ''
             @ ''\<newline>      <p>second</p>\<newline>      \<newline>    ''
             @ ''\<newline>      <p>third</p>\<newline>      \<newline>    '')
            (tweetUrl exampleWorld exampleUrl alice (examplePost ''<b>root</b>'' ''7'')))
   \<and> tweetHtml exampleUrl (exampleTweet ''<b>root</b>'' ''7'')
       = ''\<newline>      <p><b>root</b></p>\<newline>      \<newline>    ''\<close>
proof -
  have "tweetHtml exampleUrl (exampleTweet ''<b>root</b>'' ''7'')
       = ''\<newline>      <p><b>root</b></p>\<newline>      \<newline>    ''"
    by (simp add: tweetHtml_def substituteUrls_def includesHtml_def exampleTweet_def
        examplePost_def)
  moreover have "tweet_text (tweet_data (exampleTweet ''<b>root</b>'' ''7'')) = ''<b>root</b>''"
    by (simp add: exampleTweet_def examplePost_def)
  ultimately show ?thesis
    unfolding preHandle_example by simp
qed

subsection \<open>Link substitution\<close>

lemma getSubstitution_no_dollar:
  "CHR ''$'' \<notin> set rep \<Longrightarrow> getSubstitution m b a rep = rep"
  by (induction m b a rep rule: getSubstitution.induct) auto

lemma js_indexOf_Some:
  assumes "js_indexOf pat s = Some i"
  shows "s = take i s @ pat @ drop (i + length pat) s"
  using assms
proof (induction s arbitrary: i)
  case Nil
  then show ?case by (simp split: if_splits)
next
  case (Cons x xs)
  show ?case
  proof (cases "prefix pat (x # xs)")
    case True
    then have "i = 0" using Cons.prems by simp
    moreover obtain r where "x # xs = pat @ r"
      using True by (auto simp: prefix_def)
    ultimately show ?thesis by simp
  next
    case False
    then obtain j where j: "js_indexOf pat xs = Some j" "i = Suc j"
      using Cons.prems by auto
    then show ?thesis
      using Cons.IH [OF j(1)] by simp
  qed
qed

lemma js_indexOf_first:
  assumes "\<And>j. j < length pre \<Longrightarrow> \<not> prefix pat (drop j (pre @ pat @ post))"
  shows "js_indexOf pat (pre @ pat @ post) = Some (length pre)"
  using assms
proof (induction pre)
  case Nil
  have "js_indexOf pat (pat @ post) = Some 0"
    by (cases "pat @ post") (simp_all, metis prefixI)
  then show ?case by simp
next
  case (Cons x pre)
  have "\<not> prefix pat (x # pre @ pat @ post)"
    using Cons.prems [of 0] by simp
  moreover have "js_indexOf pat (pre @ pat @ post) = Some (length pre)"
  proof (rule Cons.IH)
    fix j assume "j < length pre"
    then show "\<not> prefix pat (drop j (pre @ pat @ post))"
      using Cons.prems [of "Suc j"] by simp
  qed
  ultimately show ?case by simp
qed

lemma js_indexOf_None: "js_indexOf pat s = None \<longleftrightarrow> \<not> sublist pat s"
proof (induction s)
  case Nil
  then show ?case by simp
next
  case (Cons x xs)
  then show ?case
    by (cases pat) (auto simp: sublist_Cons_right)
qed

text \<open>
  What the substitution does for a well-behaved entity: a tracked URL that does not occur
  in the text leaves the text as it is, and its first occurrence is replaced by the
  replacement when the replacement has no dollar sign.
\<close>

lemma js_replace_absent: "\<not> sublist pat s \<Longrightarrow> js_replace s pat rep = s"
  by (simp add: js_replace_def js_indexOf_None [symmetric])

lemma js_replace_first_occurrence:
  assumes "\<And>j. j < length pre \<Longrightarrow> \<not> prefix pat (drop j (pre @ pat @ post))"
    and "CHR ''$'' \<notin> set rep"
  shows "js_replace (pre @ pat @ post) pat rep = pre @ rep @ post"
  by (simp add: js_replace_def js_indexOf_first [OF assms(1)] getSubstitution_no_dollar [OF assms(2)])

lemma substituteUrls_no_entities:
  "entities tweetData = None \<or> entities tweetData = Some [] \<Longrightarrow>
     substituteUrls tweetData = tweet_text tweetData"
  by (auto simp: substituteUrls_def)

text \<open>
  Claim C6 at a failing input. The expanded URL of the entity has the query string
  \<^verbatim>\<open>?q=$&lang=en\<close>. \<^verbatim>\<open>replace\<close> reads \<^verbatim>\<open>$&\<close> in its replacement as the matched text, so
  the anchor put into the post links to a URL in which \<^verbatim>\<open>$&\<close> has become the short URL:
  it is not the anchor to the expanded URL.
\<close>

theorem substituteUrls_dollar_pattern:
  \<open>substituteUrls ((examplePost ''see https://t.co/a1'' ''7'')\<lparr>entities := Some [dollarEntity]\<rparr>)
     = ''see <a href="https://example.com/?q=https://t.co/a1lang=en">example.com/?q=https://t.co/a1lang=en</a>''
   \<and> ''see '' @ anchorFor dollarEntity
     = ''see <a href="https://example.com/?q=$&lang=en">example.com/?q=$&lang=en</a>''\<close>
  by (simp add: substituteUrls_def examplePost_def dollarEntity_def anchorFor_def js_replace_def)

subsection \<open>The root of a reply and the final thread\<close>

lemma preHandle_Inr:
  assumes "fst (preHandle w pageUrl) = Inr res"
  shows "\<exists>fetched c author thread.
           fst (resolveRoot w pageUrl) = Inr (fetched, c)
           \<and> snd (lookupAuthor fetched) = Some author
           \<and> fst (resolveTweets w (fst (lookupAuthor fetched)) c) = Inr thread
           \<and> res = \<lparr>content =
                 renderContent
                   (js_replace (profile_image_url author) ''_normal'' ''_400x400'')
                   (underscore_escape (titleForAuthor author))
                   (underscore_escape (tweet_text (tweet_data fetched)))
                   (tweetsContent pageUrl thread)
                   (tweetUrl w pageUrl author (tweet_data fetched)),
               result_url = pageUrl,
               title = underscore_escape (titleForAuthor author)\<rparr>"
proof -
  obtain r0 t0 where r: "resolveRoot w pageUrl = (r0, t0)"
    by (cases "resolveRoot w pageUrl")
  from assms r obtain fetched c where f: "r0 = Inr (fetched, c)"
    by (cases r0) (auto simp: preHandle_def bind_def)
  obtain tweet ao where l: "lookupAuthor fetched = (tweet, ao)"
    by (cases "lookupAuthor fetched")
  from assms r f l obtain author where a: "ao = Some author"
    by (cases ao) (auto simp: preHandle_def bind_def throw_def)
  obtain r1 t1 where s: "resolveTweets w tweet c = (r1, t1)"
    by (cases "resolveTweets w tweet c")
  from assms r f l a s obtain thread where t: "r1 = Inr thread"
    by (cases r1) (auto simp: preHandle_def bind_def Let_def)
  have td: "tweet_data tweet = tweet_data fetched"
    using tweet_data_lookupAuthor [of fetched] l by simp
  have "res = \<lparr>content =
                 renderContent
                   (js_replace (profile_image_url author) ''_normal'' ''_400x400'')
                   (underscore_escape (titleForAuthor author))
                   (underscore_escape (tweet_text (tweet_data fetched)))
                   (tweetsContent pageUrl thread)
                   (tweetUrl w pageUrl author (tweet_data fetched)),
               result_url = pageUrl,
               title = underscore_escape (titleForAuthor author)\<rparr>"
    using assms r f l a s t td by (simp add: preHandle_def bind_def Let_def ret_def)
  then show ?thesis
    using r f l a s t by auto
qed

lemma resolveTweets_recent_Inr:
  assumes "\<not> olderThan7Days w tweet" "fst (resolveTweets w tweet c) = Inr thread"
  shows "\<exists>recent. fst (getRecentTweets w c) = Inr recent \<and> thread = tweet # recent"
  using assms
  by (cases "getRecentTweets w c")
    (auto simp: resolveTweets_def bind_def ret_def split: sum.splits)

lemma resolveTweets_stale_Inr:
  assumes "olderThan7Days w tweet" "fst (resolveTweets w tweet c) = Inr thread"
  shows "\<exists>ids response. fst (getTweetIds w c) = Inr ids \<and> http_tweets w ids = Inr response
           \<and> thread = getTweetsFromResponse response"
  using assms
  by (cases "getTweetIds w c")
    (auto simp: resolveTweets_def getOldTweets_def bind_def ret_def getTweetsByIds_def
      throw_def await_get_def split: sum.splits if_splits)


text \<open>
  Claim C4, as amended. When the post fetched first has a conversation identifier
  different from the identifier taken from the URL, the resolver fetches the post of the
  conversation identifier next, before any other call, and every document the handler
  produces is built from the answer to that fetch: its author, title, description and
  attribution, the routing by age, and the thread that fills the body. On the Recent path
  that post is the first post of the thread. On the Stale path the thread is the batch
  answer for the scraped identifiers, whatever posts it holds.
\<close>

theorem reply_refetched_root_in_thread:
  assumes "\<not> no_token w" "tweetIdFromStatusUrl pageUrl = Some tweetId"
    "http_tweet w tweetId = Inr first" "conversation_id (tweet_data first) \<noteq> tweetId"
  shows "prefix [HttpGetTweet tweetId, HttpGetTweet (conversation_id (tweet_data first))]
           (snd (preHandle w pageUrl))
         \<and> (\<forall>res. fst (preHandle w pageUrl) = Inr res \<longrightarrow>
              (\<exists>root author thread.
                 http_tweet w (conversation_id (tweet_data first)) = Inr root
                 \<and> snd (lookupAuthor root) = Some author
                 \<and> fst (resolveTweets w (fst (lookupAuthor root))
                          (conversation_id (tweet_data first))) = Inr thread
                 \<and> res = \<lparr>content =
                       renderContent
                         (js_replace (profile_image_url author) ''_normal'' ''_400x400'')
                         (underscore_escape (titleForAuthor author))
                         (underscore_escape (tweet_text (tweet_data root)))
                         (tweetsContent pageUrl thread)
                         (tweetUrl w pageUrl author (tweet_data root)),
                     result_url = pageUrl,
                     title = underscore_escape (titleForAuthor author)\<rparr>
                 \<and> (\<not> olderThan7Days w (fst (lookupAuthor root)) \<longrightarrow>
                      (\<exists>recent. thread = fst (lookupAuthor root) # recent)
                      \<and> tweet_data (hd thread) = tweet_data root)
                 \<and> (olderThan7Days w (fst (lookupAuthor root)) \<longrightarrow>
                      (\<exists>ids response.
                         fst (getTweetIds w (conversation_id (tweet_data first))) = Inr ids
                         \<and> http_tweets w ids = Inr response
                         \<and> thread = getTweetsFromResponse response))))"
proof (intro conjI allI impI)
  have "prefix (snd (resolveRoot w pageUrl)) (snd (preHandle w pageUrl))"
    unfolding preHandle_def by (rule snd_bind_prefix)
  then show "prefix [HttpGetTweet tweetId, HttpGetTweet (conversation_id (tweet_data first))]
           (snd (preHandle w pageUrl))"
    unfolding resolveRoot_reply [OF assms] by simp
next
  fix res
  assume "fst (preHandle w pageUrl) = Inr res"
  then obtain fetched c author thread where
    f: "fst (resolveRoot w pageUrl) = Inr (fetched, c)"
    and a: "snd (lookupAuthor fetched) = Some author"
    and t: "fst (resolveTweets w (fst (lookupAuthor fetched)) c) = Inr thread"
    and r: "res = \<lparr>content =
                 renderContent
                   (js_replace (profile_image_url author) ''_normal'' ''_400x400'')
                   (underscore_escape (titleForAuthor author))
                   (underscore_escape (tweet_text (tweet_data fetched)))
                   (tweetsContent pageUrl thread)
                   (tweetUrl w pageUrl author (tweet_data fetched)),
               result_url = pageUrl,
               title = underscore_escape (titleForAuthor author)\<rparr>"
    using preHandle_Inr by blast
  from f have h: "http_tweet w (conversation_id (tweet_data first)) = Inr fetched"
    and c: "c = conversation_id (tweet_data first)"
    unfolding resolveRoot_reply [OF assms]
    by (cases "http_tweet w (conversation_id (tweet_data first))"; simp)+
  have y: "(\<exists>recent. thread = fst (lookupAuthor fetched) # recent)
      \<and> tweet_data (hd thread) = tweet_data fetched"
    if "\<not> olderThan7Days w (fst (lookupAuthor fetched))"
    using resolveTweets_recent_Inr [OF that t] tweet_data_lookupAuthor [of fetched] by auto
  have o: "\<exists>ids response.
      fst (getTweetIds w (conversation_id (tweet_data first))) = Inr ids
      \<and> http_tweets w ids = Inr response
      \<and> thread = getTweetsFromResponse response"
    if "olderThan7Days w (fst (lookupAuthor fetched))"
    using resolveTweets_stale_Inr [OF that t] c by simp
  show "\<exists>root author thread.
          http_tweet w (conversation_id (tweet_data first)) = Inr root
          \<and> snd (lookupAuthor root) = Some author
          \<and> fst (resolveTweets w (fst (lookupAuthor root))
                   (conversation_id (tweet_data first))) = Inr thread
          \<and> res = \<lparr>content =
                renderContent
                  (js_replace (profile_image_url author) ''_normal'' ''_400x400'')
                  (underscore_escape (titleForAuthor author))
                  (underscore_escape (tweet_text (tweet_data root)))
                  (tweetsContent pageUrl thread)
                  (tweetUrl w pageUrl author (tweet_data root)),
              result_url = pageUrl,
              title = underscore_escape (titleForAuthor author)\<rparr>
          \<and> (\<not> olderThan7Days w (fst (lookupAuthor root)) \<longrightarrow>
               (\<exists>recent. thread = fst (lookupAuthor root) # recent)
               \<and> tweet_data (hd thread) = tweet_data root)
          \<and> (olderThan7Days w (fst (lookupAuthor root)) \<longrightarrow>
               (\<exists>ids response.
                  fst (getTweetIds w (conversation_id (tweet_data first))) = Inr ids
                  \<and> http_tweets w ids = Inr response
                  \<and> thread = getTweetsFromResponse response))"
    apply (rule exI [of _ fetched], rule exI [of _ author], rule exI [of _ thread])
    using h a t r c y o by blast
qed


text \<open>
  The example link points at the reply \<open>21\<close> of the conversation \<open>20\<close>, which is recent:
  the root is fetched second and heads the thread.
\<close>

theorem reply_refetched_root_witness:
  \<open>\<not> no_token exampleWorld
   \<and> tweetIdFromStatusUrl exampleUrl = Some ''21''
   \<and> http_tweet exampleWorld ''21'' = Inr (exampleTweet ''reply'' ''8'')
   \<and> conversation_id (tweet_data (exampleTweet ''reply'' ''8'')) \<noteq> ''21''
   \<and> http_tweet exampleWorld ''20'' = Inr (exampleTweet ''<b>root</b>'' ''7'')
   \<and> \<not> olderThan7Days exampleWorld (fst (lookupAuthor (exampleTweet ''<b>root</b>'' ''7'')))
   \<and> snd (preHandle exampleWorld exampleUrl) =
       [HttpGetTweet ''21'', HttpGetTweet ''20'', HttpSearchRecent ''20'']
   \<and> map_sum id (map (\<lambda>t. tweet_text (tweet_data t)))
        (fst (resolveTweets exampleWorld (fst (lookupAuthor (exampleTweet ''<b>root</b>'' ''7'')))
           ''20''))
       = Inr [''<b>root</b>'', ''first'', ''second'', ''third'']
   \<and> map_sum id title (fst (preHandle exampleWorld exampleUrl)) = Inr ''Alice &lt;3 on Twitter''\<close>
proof -
  have a: "\<not> no_token exampleWorld"
    by (simp add: no_token_def exampleWorld_def)
  have b: "tweetIdFromStatusUrl exampleUrl = Some ''21''"
    by (simp add: exampleUrl_def tweetIdFromStatusUrl_def TWITTER_URL_MATCH_def is_word_def
        is_digit_def first_caps_def)
  have c: "http_tweet exampleWorld ''21'' = Inr (exampleTweet ''reply'' ''8'')"
    by (simp add: exampleWorld_def)
  have d: "conversation_id (tweet_data (exampleTweet ''reply'' ''8'')) \<noteq> ''21''"
    by (simp add: exampleTweet_def examplePost_def)
  have e: "conversation_id (tweet_data (exampleTweet ''reply'' ''8'')) = ''20''"
    by (simp add: exampleTweet_def examplePost_def)
  have f: "http_tweet exampleWorld ''20'' = Inr (exampleTweet ''<b>root</b>'' ''7'')"
    by (simp add: exampleWorld_def)
  have y: "\<not> olderThan7Days exampleWorld (fst (lookupAuthor (exampleTweet ''<b>root</b>'' ''7'')))"
    by (simp add: olderThan7Days_def exampleWorld_def exampleTweet_def examplePost_def
        lookupAuthor_def split: prod.splits)
  have s: "http_search exampleWorld ''20'' = Inr exampleSearch"
    by (simp add: exampleWorld_def)
  have x: "tweet_text (tweet_data (fst (lookupAuthor (exampleTweet ''<b>root</b>'' ''7''))))
             = ''<b>root</b>''"
    by (simp add: exampleTweet_def examplePost_def lookupAuthor_def split: prod.splits)
  have th: "map_sum id (map (\<lambda>t. tweet_text (tweet_data t)))
        (fst (resolveTweets exampleWorld (fst (lookupAuthor (exampleTweet ''<b>root</b>'' ''7'')))
           ''20''))
       = Inr [''<b>root</b>'', ''first'', ''second'', ''third'']"
    using y x
    by (simp add: resolveTweets_def getRecentTweets_token [OF a] s bind_def ret_def)
      (simp add: exampleSearch_def examplePost_def getTweetsFromResponse_def)
  show ?thesis
    using reply_refetched_root_in_thread [OF a b c d] a b c d f y th
    by (simp add: preHandle_example)
qed

lemma getTweetById_now: "getTweetById (w\<lparr>now := n\<rparr>) i = getTweetById w i"
  by (simp add: getTweetById_def no_token_def await_get_def)

lemma resolveRoot_now: "resolveRoot (w\<lparr>now := n\<rparr>) u = resolveRoot w u"
  unfolding resolveRoot_def getTweetById_now ..

text \<open>
  Claim C4 as stated fails on the Stale path: with the clock one millisecond later the
  root of the example is more than seven days old, and the thread of the produced
  document is the batch answer, three posts none of which is the root fetched by the
  conversation identifier.
\<close>

theorem stale_thread_without_root_counterexample:
  \<open>tweetIdFromStatusUrl exampleUrl = Some ''21''
   \<and> http_tweet (exampleWorld\<lparr>now := 1642377600001\<rparr>) ''21'' = Inr (exampleTweet ''reply'' ''8'')
   \<and> conversation_id (tweet_data (exampleTweet ''reply'' ''8'')) = ''20''
   \<and> resolveRoot (exampleWorld\<lparr>now := 1642377600001\<rparr>) exampleUrl =
       (Inr (exampleTweet ''<b>root</b>'' ''7'', ''20''), [HttpGetTweet ''21'', HttpGetTweet ''20''])
   \<and> map_sum id (map (\<lambda>t. tweet_text (tweet_data t)))
        (fst (resolveTweets (exampleWorld\<lparr>now := 1642377600001\<rparr>)
           (fst (lookupAuthor (exampleTweet ''<b>root</b>'' ''7''))) ''20''))
       = Inr [''third'', ''second'', ''first'']
   \<and> fst (preHandle (exampleWorld\<lparr>now := 1642377600001\<rparr>) exampleUrl) =
       Inr \<lparr>content =
             renderContent
               ''https://img/a_400x400.png''
               ''Alice &lt;3 on Twitter''
               ''&lt;b&gt;root&lt;/b&gt;''
               (''\<newline>      <p>third</p>\<newline>      \<newline>    ''
                @ ''\<newline>      <p>second</p>\<newline>      \<newline>    ''
                @ ''\<newline>      <p>first</p>\<newline>      \<newline>    '')
               (tweetUrl exampleWorld exampleUrl alice (examplePost ''<b>root</b>'' ''7'')),
           result_url = exampleUrl,
           title = ''Alice &lt;3 on Twitter''\<rparr>\<close>
proof -
  let ?W = "exampleWorld\<lparr>now := 1642377600001\<rparr>"
  let ?root = "(exampleTweet ''<b>root</b>'' ''7'')
        \<lparr>tweet_includes := \<lparr>users = [alice, bob\<lparr>user_id := ''7''\<rparr>], media = None\<rparr>\<rparr>"
  have b: "tweetIdFromStatusUrl exampleUrl = Some ''21''"
    by (simp add: exampleUrl_def tweetIdFromStatusUrl_def TWITTER_URL_MATCH_def is_word_def
        is_digit_def first_caps_def)
  have c: "http_tweet ?W ''21'' = Inr (exampleTweet ''reply'' ''8'')"
    by (simp add: exampleWorld_def)
  have e: "conversation_id (tweet_data (exampleTweet ''reply'' ''8'')) = ''20''"
    by (simp add: exampleTweet_def examplePost_def)
  have rr: "resolveRoot ?W exampleUrl =
       (Inr (exampleTweet ''<b>root</b>'' ''7'', ''20''), [HttpGetTweet ''21'', HttpGetTweet ''20''])"
    by (simp only: resolveRoot_now resolveRoot_example)
  have o: "olderThan7Days ?W ?root"
    by (simp add: olderThan7Days_def exampleWorld_def exampleTweet_def examplePost_def)
  have l: "launch_result ?W = None" and cl: "close_result ?W = None"
    by (simp_all add: exampleWorld_def)
  have "newPage_result exampleWorld = None" "goto_result exampleWorld u = None"
    "evaluate_result exampleWorld = None" for u
    by (simp_all add: exampleWorld_def)
  then have sp: "scanPage ?W ''https://twitter.com/anyone/status/20'' =
      (Inr [''20'', ''22''],
       [NewPage, Goto ''https://twitter.com/anyone/status/20'', WaitFor 4000, Evaluate])"
    by (simp add: scanPage_eq inPage_now inPage_exampleWorld)
  have g: "getTweetIds ?W ''20'' =
      (Inr [''20'', ''22''],
       [Launch, NewPage, Goto ''https://twitter.com/anyone/status/20'', WaitFor 4000, Evaluate,
        BrowserClose])"
    by (simp add: getTweetIds_eq l cl sp)
  have t: "\<not> no_token ?W"
    by (simp add: no_token_def exampleWorld_def)
  have ht: "http_tweets exampleWorld [''20'', ''22''] = Inr (exampleSearch\<lparr>result_count := 0\<rparr>)"
    by (simp add: exampleWorld_def)
  have th: "fst (resolveTweets ?W ?root ''20'') =
      Inr (getTweetsFromResponse (exampleSearch\<lparr>result_count := 0\<rparr>))"
    using o by (simp add: resolveTweets_def getOldTweets_def g bind_def getTweetsByIds_token [OF t]
        ht ret_def)
  have tx: "map (\<lambda>t. tweet_text (tweet_data t))
        (getTweetsFromResponse (exampleSearch\<lparr>result_count := 0\<rparr>))
      = [''third'', ''second'', ''first'']"
    by (simp add: exampleSearch_def examplePost_def getTweetsFromResponse_def)
  have tc: "tweetsContent exampleUrl (getTweetsFromResponse (exampleSearch\<lparr>result_count := 0\<rparr>)) =
       ''\<newline>      <p>third</p>\<newline>      \<newline>    ''
             @ ''\<newline>      <p>second</p>\<newline>      \<newline>    ''
             @ ''\<newline>      <p>first</p>\<newline>      \<newline>    ''"
    by (simp add: tweetsContent_def tweetHtml_def substituteUrls_def includesHtml_def
        examplePost_def exampleSearch_def getTweetsFromResponse_def)
  have im: "js_replace (profile_image_url alice) ''_normal'' ''_400x400'' = ''https://img/a_400x400.png''"
    by (simp add: js_replace_def alice_def)
  have ti: "underscore_escape (titleForAuthor alice) = ''Alice &lt;3 on Twitter''"
    by (simp add: underscore_escape_def titleForAuthor_def alice_def escapeChar_def)
  have de: "underscore_escape (tweet_text (examplePost ''<b>root</b>'' ''7''))
      = ''&lt;b&gt;root&lt;/b&gt;''"
    by (simp add: underscore_escape_def examplePost_def escapeChar_def)
  have td: "tweet_data ?root = examplePost ''<b>root</b>'' ''7''"
    by (simp add: exampleTweet_def)
  have tu: "tweetUrl ?W u a d = tweetUrl exampleWorld u a d" for u a d
    by (simp add: tweetUrl_def)
  obtain r1 t1 where rt: "resolveTweets ?W ?root ''20'' = (r1, t1)"
    by (cases "resolveTweets ?W ?root ''20''")
  with th have r1: "r1 = Inr (getTweetsFromResponse (exampleSearch\<lparr>result_count := 0\<rparr>))"
    by simp
  have ph: "fst (preHandle ?W exampleUrl) =
       Inr \<lparr>content =
             renderContent
               ''https://img/a_400x400.png''
               ''Alice &lt;3 on Twitter''
               ''&lt;b&gt;root&lt;/b&gt;''
               (''\<newline>      <p>third</p>\<newline>      \<newline>    ''
                @ ''\<newline>      <p>second</p>\<newline>      \<newline>    ''
                @ ''\<newline>      <p>first</p>\<newline>      \<newline>    '')
               (tweetUrl exampleWorld exampleUrl alice (examplePost ''<b>root</b>'' ''7'')),
           result_url = exampleUrl,
           title = ''Alice &lt;3 on Twitter''\<rparr>"
    by (simp add: preHandle_def rr lookupAuthor_example bind_def rt r1 ret_def
        Let_def tc im ti de td tu del: append_assoc)
  have th': "map_sum id (map (\<lambda>t. tweet_text (tweet_data t)))
        (fst (resolveTweets ?W (fst (lookupAuthor (exampleTweet ''<b>root</b>'' ''7''))) ''20''))
       = Inr [''third'', ''second'', ''first'']"
    by (simp add: lookupAuthor_example th tx)
  show ?thesis
    using b c e rr th' ph by simp
qed

end
